theory Spec2Isabelle
  imports Complex_Main
begin

section \<open>The gateway client: connection state machine\<close>

text \<open>
  Source: \<^verbatim>\<open>src/apps/claw_dashboard/src/services/GatewayClient.ts\<close>.

  The class keeps its connection state in private fields and talks to three parts of the
  JavaScript platform: the timer queue (\<^verbatim>\<open>setTimeout\<close>, \<^verbatim>\<open>setInterval\<close> and their
  \<^verbatim>\<open>clear\<close> calls), the random number generator, and the IPC bridge \<^verbatim>\<open>window.ipc\<close>.
  The model is one record: the private fields under their own names, followed by the part
  of the platform the class acts on (the live timers, the next timer handle, the status
  probes that have been sent and not yet answered) and the trace of \<^verbatim>\<open>emit\<close> calls.

  \<^verbatim>\<open>connect()\<close> and the heartbeat callback are \<^verbatim>\<open>async\<close>: each runs up to its
  \<^verbatim>\<open>await this.gatewayStatus()\<close>, and runs on when the probe settles. Other calls and
  timers can run in between, so each is modelled as two steps. Left out are the field
  \<^verbatim>\<open>lastDisconnectTime\<close> (a wall-clock reading that no method reads back), the listener
  table (\<^verbatim>\<open>emit\<close> is recorded as a trace entry; an exception of a listener is caught
  there) and the rejection that \<^verbatim>\<open>connect()\<close> passes on to its caller after its
  \<^verbatim>\<open>catch\<close> block has run.
\<close>

datatype ConnectionState =
  Connecting | Connected | Reconnecting | Disconnecting | Disconnected | ErrorState

text \<open>One entry per \<^verbatim>\<open>this.emit(...)\<close> call, with the payload the call passes.\<close>

datatype emitted =
    EvConnecting
  | EvConnected
  | EvDisconnecting
  | EvDisconnected
  | EvReconnecting nat int nat  \<comment> \<open>\<^verbatim>\<open>{ attempt, delay, maxAttempts }\<close>\<close>
  | EvError string              \<comment> \<open>the message of the \<^verbatim>\<open>Error\<close> value\<close>

text \<open>
  The objects passed between the subprocess invoker, the IPC handlers and the client are
  plain JavaScript objects, and several of them may carry a field \<^verbatim>\<open>error\<close>. Every
  field is optional, so every field is an option; \<open>None\<close> is \<^verbatim>\<open>undefined\<close>.
\<close>

record js_result =
  error :: "string option"

record GatewayStatus = js_result +
  running :: "bool option"
  output_str :: "string option"  \<comment> \<open>the field \<^verbatim>\<open>output\<close>\<close>

text \<open>How \<^verbatim>\<open>await window.ipc.invoke('gateway:status')\<close> settles.\<close>

datatype ipc_outcome =
    Rejected string        \<comment> \<open>the promise rejects with an \<^verbatim>\<open>Error\<close> of this message\<close>
  | Replied GatewayStatus  \<comment> \<open>the promise resolves with this object\<close>

record GatewayClient =
  state :: ConnectionState
  lastError :: "string option"
  reconnectAttempts :: nat
  maxReconnectAttempts :: nat
  reconnectTimer :: "nat option"
  heartbeatTimer :: "nat option"
  isManualDisconnect :: bool
  \<comment> \<open>the platform\<close>
  window_ipc :: bool            \<comment> \<open>whether \<^verbatim>\<open>window.ipc\<close> is defined\<close>
  timeouts :: "nat list"        \<comment> \<open>handles of the live \<^verbatim>\<open>setTimeout\<close> timers\<close>
  intervals :: "nat list"       \<comment> \<open>handles of the live \<^verbatim>\<open>setInterval\<close> timers\<close>
  nextTimer :: nat              \<comment> \<open>the handle the next timer gets\<close>
  connectsInFlight :: nat       \<comment> \<open>\<^verbatim>\<open>connect()\<close> calls waiting at their \<^verbatim>\<open>await\<close>\<close>
  heartbeatsInFlight :: nat     \<comment> \<open>heartbeat callbacks waiting at their \<^verbatim>\<open>await\<close>\<close>
  events :: "emitted list"      \<comment> \<open>the \<^verbatim>\<open>emit\<close> calls so far, oldest first\<close>

text \<open>
  The field initialisers of the class, on a fresh platform. Timer handles of a browser
  window are positive integers, so \<^verbatim>\<open>if (this.reconnectTimer)\<close> tests for a handle.
\<close>

definition new_client :: "bool \<Rightarrow> GatewayClient" where
  "new_client ipc =
     \<lparr> state = Disconnected, lastError = None, reconnectAttempts = 0,
       maxReconnectAttempts = 5, reconnectTimer = None, heartbeatTimer = None,
       isManualDisconnect = False,
       window_ipc = ipc, timeouts = [], intervals = [], nextTimer = 1,
       connectsInFlight = 0, heartbeatsInFlight = 0, events = [] \<rparr>"

definition emit :: "emitted \<Rightarrow> GatewayClient \<Rightarrow> GatewayClient" where
  "emit e c = c\<lparr>events := events c @ [e]\<rparr>"

subsection \<open>Timers\<close>

definition setTimeout :: "GatewayClient \<Rightarrow> nat \<times> GatewayClient" where
  "setTimeout c =
     (nextTimer c, c\<lparr>timeouts := timeouts c @ [nextTimer c], nextTimer := Suc (nextTimer c)\<rparr>)"

definition clearTimeout :: "nat \<Rightarrow> GatewayClient \<Rightarrow> GatewayClient" where
  "clearTimeout h c = c\<lparr>timeouts := removeAll h (timeouts c)\<rparr>"

definition setInterval :: "GatewayClient \<Rightarrow> nat \<times> GatewayClient" where
  "setInterval c =
     (nextTimer c, c\<lparr>intervals := intervals c @ [nextTimer c], nextTimer := Suc (nextTimer c)\<rparr>)"

definition clearInterval :: "nat \<Rightarrow> GatewayClient \<Rightarrow> GatewayClient" where
  "clearInterval h c = c\<lparr>intervals := removeAll h (intervals c)\<rparr>"

subsection \<open>Backoff\<close>

text \<open>
  \<^verbatim>\<open>getBackoffDelay(attempt)\<close>. The draw of \<^verbatim>\<open>Math.random()\<close> is the argument \<open>rnd\<close>, a
  number in \<open>[0, 1)\<close>. The arithmetic is over the reals; \<^verbatim>\<open>Math.round\<close> rounds to the
  nearest integer, a half upwards, which is \<^const>\<open>round\<close>.
\<close>

definition getBackoffDelay :: "nat \<Rightarrow> real \<Rightarrow> int" where
  "getBackoffDelay attempt rnd =
     (let baseDelay = 1000;
          exponential = baseDelay * 2 ^ attempt;
          maxDelay = 16000;
          delay = min exponential maxDelay;
          jitter = delay * 0.25 * (rnd * 2 - 1)
      in round (delay + jitter))"

subsection \<open>Decimal numerals\<close>

fun digit_char :: "nat \<Rightarrow> char" where
  "digit_char n = char_of (48 + n mod 10)"

fun show_nat :: "nat \<Rightarrow> string" where
  "show_nat n = (if n < 10 then [digit_char n] else show_nat (n div 10) @ [digit_char n])"

declare show_nat.simps [simp del]

subsection \<open>The methods\<close>

text \<open>\<^verbatim>\<open>gatewayStatus()\<close>, after its \<^verbatim>\<open>await\<close>: from the reply of the bridge to the status.\<close>

definition truthy_string :: "string option \<Rightarrow> bool" where
  "truthy_string s = (case s of None \<Rightarrow> False | Some t \<Rightarrow> t \<noteq> [])"

definition gatewayStatus :: "GatewayStatus \<Rightarrow> GatewayStatus" where
  "gatewayStatus res =
     (if truthy_string (error res)
      then \<lparr>error = error res, running = Some False, output_str = None\<rparr>
      else \<lparr>error = None, running = Some (running res = Some True),
             output_str = output_str res\<rparr>)"

definition stopHeartbeat :: "GatewayClient \<Rightarrow> GatewayClient" where
  "stopHeartbeat c =
     (case heartbeatTimer c of
        None \<Rightarrow> c
      | Some h \<Rightarrow> (clearInterval h c)\<lparr>heartbeatTimer := None\<rparr>)"

definition startHeartbeat :: "GatewayClient \<Rightarrow> GatewayClient" where
  "startHeartbeat c =
     (let (h, c1) = setInterval (stopHeartbeat c)
      in c1\<lparr>heartbeatTimer := Some h\<rparr>)"

definition max_attempts_message :: "nat \<Rightarrow> string" where
  "max_attempts_message m = ''Max reconnect attempts ('' @ show_nat m @ '') reached''"

text \<open>
  \<^verbatim>\<open>attemptReconnect()\<close>. It is declared \<^verbatim>\<open>async\<close> but awaits nothing, so it runs to its
  end within the step that calls it. The callback it hands to \<^verbatim>\<open>setTimeout\<close> is always
  the same (call \<^verbatim>\<open>connect()\<close>, swallow its rejection), so a live timeout is its handle.
\<close>

definition attemptReconnect :: "real \<Rightarrow> GatewayClient \<Rightarrow> GatewayClient" where
  "attemptReconnect rnd c =
     (if isManualDisconnect c then c
      else if reconnectAttempts c \<ge> maxReconnectAttempts c then
        emit (EvError (max_attempts_message (maxReconnectAttempts c)))
          (c\<lparr>state := Disconnected\<rparr>)
      else
        let delay = getBackoffDelay (reconnectAttempts c) rnd;
            c1 = c\<lparr>reconnectAttempts := Suc (reconnectAttempts c)\<rparr>;
            c2 = c1\<lparr>state := Reconnecting\<rparr>;
            c3 = emit (EvReconnecting (reconnectAttempts c2) delay (maxReconnectAttempts c2)) c2;
            (h, c4) = setTimeout c3
        in c4\<lparr>reconnectTimer := Some h\<rparr>)"

text \<open>The \<^verbatim>\<open>catch\<close> block of \<^verbatim>\<open>connect()\<close>, for an error of message \<open>msg\<close>.\<close>

definition connect_catch :: "real \<Rightarrow> string \<Rightarrow> GatewayClient \<Rightarrow> GatewayClient" where
  "connect_catch rnd msg c =
     (let c1 = c\<lparr>state := ErrorState\<rparr>;
          c2 = c1\<lparr>lastError := Some (if msg \<noteq> [] then msg else ''Connection failed'')\<rparr>;
          c3 = emit (EvError msg) c2
      in if \<not> isManualDisconnect c3 then attemptReconnect rnd c3 else c3)"

text \<open>\<^verbatim>\<open>connect()\<close> from its first line to the \<^verbatim>\<open>await\<close>.\<close>

definition connect_begin :: "real \<Rightarrow> GatewayClient \<Rightarrow> GatewayClient" where
  "connect_begin rnd c =
     (let c1 = (case reconnectTimer c of
                  None \<Rightarrow> c
                | Some h \<Rightarrow> (clearTimeout h c)\<lparr>reconnectTimer := None\<rparr>);
          c2 = c1\<lparr>isManualDisconnect := False\<rparr>;
          c3 = c2\<lparr>state := Connecting\<rparr>;
          c4 = emit EvConnecting c3
      in if \<not> window_ipc c4 then connect_catch rnd ''Electron IPC not available'' c4
         else c4\<lparr>connectsInFlight := Suc (connectsInFlight c4)\<rparr>)"

text \<open>\<^verbatim>\<open>connect()\<close> from the \<^verbatim>\<open>await\<close> on, given how the probe settled.\<close>

definition connect_resume :: "real \<Rightarrow> ipc_outcome \<Rightarrow> GatewayClient \<Rightarrow> GatewayClient" where
  "connect_resume rnd outcome c =
     (case outcome of
        Rejected msg \<Rightarrow> connect_catch rnd msg c
      | Replied res \<Rightarrow>
          if running (gatewayStatus res) = Some True then
            startHeartbeat
              (emit EvConnected
                 (c\<lparr>state := Connected, lastError := None, reconnectAttempts := 0\<rparr>))
          else connect_catch rnd ''Gateway is not running'' c)"

definition disconnect :: "GatewayClient \<Rightarrow> GatewayClient" where
  "disconnect c =
     (if state c = Disconnected then c
      else
        let c1 = c\<lparr>isManualDisconnect := True\<rparr>;
            c2 = stopHeartbeat c1;
            c3 = (case reconnectTimer c2 of
                    None \<Rightarrow> c2
                  | Some h \<Rightarrow> (clearTimeout h c2)\<lparr>reconnectTimer := None\<rparr>);
            c4 = emit EvDisconnecting (c3\<lparr>state := Disconnecting\<rparr>)
        in emit EvDisconnected (c4\<lparr>state := Disconnected\<rparr>))"

definition reconnect :: "real \<Rightarrow> GatewayClient \<Rightarrow> GatewayClient" where
  "reconnect rnd c =
     connect_begin rnd
       (c\<lparr>reconnectAttempts := 0, lastError := None, isManualDisconnect := False\<rparr>)"

text \<open>The \<^verbatim>\<open>catch\<close> block of the heartbeat callback, for an error of message \<open>msg\<close>.\<close>

definition heartbeat_catch :: "real \<Rightarrow> string \<Rightarrow> GatewayClient \<Rightarrow> GatewayClient" where
  "heartbeat_catch rnd msg c =
     (let c1 = c\<lparr>lastError := Some msg\<rparr>;
          c2 = c1\<lparr>state := Disconnected\<rparr>;
          c3 = stopHeartbeat c2
      in attemptReconnect rnd c3)"

text \<open>The heartbeat callback from its \<^verbatim>\<open>await\<close> on.\<close>

definition heartbeat_resume :: "real \<Rightarrow> ipc_outcome \<Rightarrow> GatewayClient \<Rightarrow> GatewayClient" where
  "heartbeat_resume rnd outcome c =
     (case outcome of
        Rejected msg \<Rightarrow> heartbeat_catch rnd msg c
      | Replied res \<Rightarrow>
          if running (gatewayStatus res) \<noteq> Some True
          then heartbeat_catch rnd ''Gateway stopped'' c
          else c)"

subsection \<open>Steps of the event loop\<close>

text \<open>
  What can happen to a client: a call of one of its three public methods, a live timer
  firing, or a status probe settling. A timer that is not live cannot fire and a probe
  that was not sent cannot settle: such a step leaves the client as it is. Each step
  comes with the number \<^verbatim>\<open>Math.random()\<close> returns if the step calls it (every step calls
  it at most once).
\<close>

datatype action =
    Connect
  | Disconnect
  | Reconnect
  | ReconnectTimerFires nat
  | HeartbeatTimerFires nat
  | ConnectProbeSettles ipc_outcome
  | HeartbeatProbeSettles ipc_outcome

fun step :: "real \<Rightarrow> action \<Rightarrow> GatewayClient \<Rightarrow> GatewayClient" where
  "step rnd Connect c = connect_begin rnd c"
| "step rnd Disconnect c = disconnect c"
| "step rnd Reconnect c = reconnect rnd c"
| "step rnd (ReconnectTimerFires h) c =
     (if h \<in> set (timeouts c)
      then connect_begin rnd (c\<lparr>timeouts := removeAll h (timeouts c)\<rparr>)
      else c)"
| "step rnd (HeartbeatTimerFires h) c =
     (if h \<in> set (intervals c)
      then c\<lparr>heartbeatsInFlight := Suc (heartbeatsInFlight c)\<rparr>
      else c)"
| "step rnd (ConnectProbeSettles outcome) c =
     (if connectsInFlight c > 0
      then connect_resume rnd outcome (c\<lparr>connectsInFlight := connectsInFlight c - 1\<rparr>)
      else c)"
| "step rnd (HeartbeatProbeSettles outcome) c =
     (if heartbeatsInFlight c > 0
      then heartbeat_resume rnd outcome (c\<lparr>heartbeatsInFlight := heartbeatsInFlight c - 1\<rparr>)
      else c)"

fun run :: "(real \<times> action) list \<Rightarrow> GatewayClient \<Rightarrow> GatewayClient" where
  "run [] c = c"
| "run ((rnd, a) # rest) c = run rest (step rnd a c)"

text \<open>The steps that are a call of \<^verbatim>\<open>connect()\<close> or \<^verbatim>\<open>reconnect()\<close> by the user.\<close>

fun explicit_connect :: "action \<Rightarrow> bool" where
  "explicit_connect Connect = True"
| "explicit_connect Reconnect = True"
| "explicit_connect _ = False"

text \<open>A probe that makes \<^verbatim>\<open>connect()\<close> and the heartbeat fail: it throws, or reports the
  gateway as not running.\<close>

fun probe_fails :: "ipc_outcome \<Rightarrow> bool" where
  "probe_fails (Rejected msg) = True"
| "probe_fails (Replied res) = (running (gatewayStatus res) \<noteq> Some True)"

subsection \<open>Runs and states the statements below refer to\<close>

text \<open>
  A failed reconnect attempt is two steps: the reconnect timer fires, which calls
  \<^verbatim>\<open>connect()\<close>, and the status probe of that call fails. A sequence of failed attempts
  starting with the timer of handle \<open>h\<close>: each attempt schedules the next, whose timer
  gets the next handle.
\<close>

fun reconnect_attempts :: "nat \<Rightarrow> (real \<times> ipc_outcome) list \<Rightarrow> (real \<times> action) list" where
  "reconnect_attempts h [] = []"
| "reconnect_attempts h ((rnd, outcome) # rest) =
     (rnd, ReconnectTimerFires h) # (rnd, ConnectProbeSettles outcome)
       # reconnect_attempts (Suc h) rest"

text \<open>
  The \<open>k\<close>-th reconnect attempt is pending on the timer of handle \<open>h\<close>, the timer created
  last, and nothing else is live: no other timer, no probe awaiting its answer.
\<close>

definition waiting :: "nat \<Rightarrow> nat \<Rightarrow> GatewayClient \<Rightarrow> bool" where
  "waiting k h c \<longleftrightarrow>
     reconnectAttempts c = k \<and> maxReconnectAttempts c = 5
     \<and> reconnectTimer c = Some h \<and> timeouts c = [h] \<and> nextTimer c = Suc h
     \<and> intervals c = [] \<and> connectsInFlight c = 0 \<and> heartbeatsInFlight c = 0"

text \<open>
  The client has given up: it is \<^verbatim>\<open>disconnected\<close> with its attempts used up, the last
  thing it emitted is the terminal error, and nothing is live that could start another
  attempt.
\<close>

definition gave_up :: "GatewayClient \<Rightarrow> bool" where
  "gave_up c \<longleftrightarrow>
     state c = Disconnected \<and> reconnectAttempts c = 5 \<and> maxReconnectAttempts c = 5
     \<and> events c \<noteq> [] \<and> last (events c) = EvError ''Max reconnect attempts (5) reached''
     \<and> timeouts c = [] \<and> intervals c = []
     \<and> connectsInFlight c = 0 \<and> heartbeatsInFlight c = 0"

text \<open>
  Two answers of the \<^verbatim>\<open>gateway:status\<close> handler: the one it gives when the CLI cannot
  be run, and one it gives when the CLI ran.
\<close>

definition gateway_down :: ipc_outcome where
  "gateway_down =
     Replied \<lparr>error = None, running = Some False,
              output_str = Some ''spawn openclaw ENOENT''\<rparr>"

definition gateway_up :: ipc_outcome where
  "gateway_up =
     Replied \<lparr>error = None, running = Some True, output_str = Some ''Gateway: running''\<rparr>"

text \<open>
  A fresh client whose \<^verbatim>\<open>connect()\<close> has failed, and five ways for the attempts that
  follow to fail.
\<close>

definition five_failures :: "(real \<times> ipc_outcome) list" where
  "five_failures =
     [(0, gateway_down), (1 / 4, Rejected ''timeout''), (1 / 2, gateway_down),
      (3 / 4, gateway_down), (1 / 2, gateway_down)]"

definition first_attempt_pending :: GatewayClient where
  "first_attempt_pending =
     run [(1 / 2, Connect), (1 / 2, ConnectProbeSettles gateway_down)] (new_client True)"


text \<open>
  \<^verbatim>\<open>reconnect()\<close> is called twice before the first probe is answered (the Reconnect button
  of the diagnostics panel stays on screen until the panel refreshes), and both probes
  fail.
\<close>

definition double_reconnect :: "(real \<times> action) list" where
  "double_reconnect =
     [(1 / 2, Reconnect), (1 / 2, Reconnect),
      (1 / 2, ConnectProbeSettles gateway_down), (1 / 2, ConnectProbeSettles gateway_down)]"

text \<open>
  \<^verbatim>\<open>disconnect()\<close> is called while \<^verbatim>\<open>connect()\<close> waits for its probe; the probe then
  succeeds, and the heartbeat timer fires.
\<close>

definition overtaken_connect :: "(real \<times> action) list" where
  "overtaken_connect =
     [(1 / 2, Connect), (1 / 2, Disconnect), (1 / 2, ConnectProbeSettles gateway_up),
      (1 / 2, HeartbeatTimerFires 1)]"

text \<open>A client that connected, with its first heartbeat probe on the way.\<close>

definition connected_client :: "GatewayClient" where
  "connected_client =
     run [(1 / 2, Connect), (1 / 2, ConnectProbeSettles gateway_up),
          (1 / 2, HeartbeatTimerFires 1)]
       (new_client True)"

text \<open>The live interval timers are the heartbeat timer the client holds, if it holds one.\<close>

definition heartbeat_unique :: "GatewayClient \<Rightarrow> bool" where
  "heartbeat_unique c \<longleftrightarrow>
     intervals c = (case heartbeatTimer c of None \<Rightarrow> [] | Some h \<Rightarrow> [h])"

text \<open>The manual-disconnect flag is set and no reconnect timer is live.\<close>

definition silenced :: "GatewayClient \<Rightarrow> bool" where
  "silenced c \<longleftrightarrow> isManualDisconnect c \<and> timeouts c = []"

section \<open>The main process: subprocess invoker and IPC handlers\<close>

text \<open>
  Source: \<^verbatim>\<open>src/apps/claw_dashboard/dist/preload.js\<close>.

  \<^verbatim>\<open>execOpenClaw(args)\<close> runs the CLI with \<^verbatim>\<open>execFile\<close> and resolves, in the callback
  \<^verbatim>\<open>(error, stdout)\<close>, to \<^verbatim>\<open>{ error: error.message }\<close> or to
  \<^verbatim>\<open>{ stdout: stdout?.toString() || '' }\<close>. The two callback arguments are the arguments
  of the model: the message of the error, if there is one, and the captured output.
\<close>

record exec_result = js_result +
  stdout :: "string option"

definition execOpenClaw :: "string option \<Rightarrow> string option \<Rightarrow> exec_result" where
  "execOpenClaw err out =
     (case err of
        Some message \<Rightarrow> \<lparr>error = Some message, stdout = None\<rparr>
      | None \<Rightarrow>
          \<lparr>error = None, stdout = Some (if truthy_string out then the out else [])\<rparr>)"

text \<open>\<^verbatim>\<open>ipcMain.handle('gateway:status', ...)\<close>, from the result of the subprocess on.\<close>

definition gateway_status_handler :: "exec_result \<Rightarrow> GatewayStatus" where
  "gateway_status_handler res =
     (if truthy_string (error res)
      then \<lparr>error = None, running = Some False, output_str = error res\<rparr>
      else \<lparr>error = None, running = Some True, output_str = stdout res\<rparr>)"

subsection \<open>The listing parser of \<^verbatim>\<open>agents:list\<close>\<close>

text \<open>
  Strings are lists of characters. The white space of \<^verbatim>\<open>trim()\<close> and of the regular
  expression class \<^verbatim>\<open>\s\<close> is, within ASCII, the six characters below; the line
  terminators that \<^verbatim>\<open>.\<close> does not match are, within ASCII, line feed and carriage
  return.
\<close>

definition is_space :: "char \<Rightarrow> bool" where
  "is_space ch \<longleftrightarrow> ch \<in> set [CHR 0x09, CHR 0x0A, CHR 0x0B, CHR 0x0C, CHR 0x0D, CHR 0x20]"

definition line_terminator :: "char \<Rightarrow> bool" where
  "line_terminator ch \<longleftrightarrow> ch \<in> set [CHR 0x0A, CHR 0x0D]"

definition trim :: "string \<Rightarrow> string" where
  "trim s = rev (dropWhile is_space (rev (dropWhile is_space s)))"

definition startsWith :: "string \<Rightarrow> string \<Rightarrow> bool" where
  "startsWith s p \<longleftrightarrow> take (length p) s = p"

fun includes_str :: "string \<Rightarrow> string \<Rightarrow> bool" where
  "includes_str [] p = (p = [])"
| "includes_str (ch # s) p = (startsWith (ch # s) p \<or> includes_str s p)"

text \<open>\<^verbatim>\<open>s.split('\n')\<close>: the pieces between line feeds, at least one piece.\<close>

fun split_lines :: "string \<Rightarrow> string list" where
  "split_lines [] = [[]]"
| "split_lines (ch # s) =
     (if ch = CHR 0x0A then [] # split_lines s
      else case split_lines s of
        [] \<Rightarrow> [[ch]]
      | piece # pieces \<Rightarrow> (ch # piece) # pieces)"

text \<open>
  \<^verbatim>\<open>s.replace(/\s*\(default\).*$/, '')\<close>. The expression matches at a position when,
  after the white space there, the text \<^verbatim>\<open>(default)\<close> follows and no line terminator
  comes after it. \<^verbatim>\<open>replace\<close> removes the leftmost match, which reaches to the end of
  the string.
\<close>

definition default_suffix :: "string \<Rightarrow> bool" where
  "default_suffix s =
     (let rest = dropWhile is_space s
      in startsWith rest ''(default)''
         \<and> list_all (\<lambda>ch. \<not> line_terminator ch) (drop (length ''(default)'') rest))"

fun strip_default :: "string \<Rightarrow> string" where
  "strip_default [] = []"
| "strip_default (ch # s) =
     (if default_suffix (ch # s) then [] else ch # strip_default s)"

record Agent =
  agent_id :: string    \<comment> \<open>the field \<^verbatim>\<open>id\<close>\<close>
  name :: string
  isDefault :: bool
  workspace :: string
  model :: string

text \<open>The record a marker line \<^verbatim>\<open>- <name>\<close> starts; \<open>trimmed\<close> is the trimmed line.\<close>

definition new_agent :: "string \<Rightarrow> Agent" where
  "new_agent trimmed =
     (let nameWithDefault = trim (drop 2 trimmed);
          isDefault = includes_str nameWithDefault ''(default)'';
          name = trim (strip_default nameWithDefault)
      in \<lparr>agent_id = name, name = name, isDefault = isDefault, workspace = [], model = []\<rparr>)"

text \<open>
  The \<^verbatim>\<open>for\<close> loop over the lines, with the two variables it updates: the list
  \<^verbatim>\<open>agents\<close> and \<^verbatim>\<open>currentAgent\<close>, which is \<^verbatim>\<open>null\<close> before the first marker line.
\<close>

fun parse_lines :: "string list \<Rightarrow> Agent list \<Rightarrow> Agent option \<Rightarrow> Agent list \<times> Agent option" where
  "parse_lines [] agents currentAgent = (agents, currentAgent)"
| "parse_lines (line # rest) agents currentAgent =
     (let trimmed = trim line in
      if startsWith trimmed ''- '' then
        parse_lines rest
          (case currentAgent of None \<Rightarrow> agents | Some a \<Rightarrow> agents @ [a])
          (Some (new_agent trimmed))
      else if startsWith trimmed ''Workspace:'' \<and> currentAgent \<noteq> None then
        parse_lines rest agents
          (map_option (\<lambda>a. a\<lparr>workspace := trim (drop (length ''Workspace:'') trimmed)\<rparr>)
             currentAgent)
      else if startsWith trimmed ''Model:'' \<and> currentAgent \<noteq> None then
        parse_lines rest agents
          (map_option (\<lambda>a. a\<lparr>model := trim (drop (length ''Model:'') trimmed)\<rparr>)
             currentAgent)
      else parse_lines rest agents currentAgent)"

text \<open>After the loop: \<^verbatim>\<open>if (currentAgent) agents.push(currentAgent)\<close>.\<close>

fun push_last :: "Agent list \<times> Agent option \<Rightarrow> Agent list" where
  "push_last (agents, None) = agents"
| "push_last (agents, Some a) = agents @ [a]"

text \<open>The whole \<^verbatim>\<open>try\<close> block: the loop, then the push of the last record.\<close>

definition parse_agents :: "string \<Rightarrow> Agent list" where
  "parse_agents text = push_last (parse_lines (split_lines text) [] None)"

subsection \<open>JavaScript values\<close>

text \<open>
  What \<^verbatim>\<open>JSON.parse\<close> returns, and \<^verbatim>\<open>undefined\<close> for a property that is read and is not
  there. An object is the list of its properties in insertion order, without repeated
  keys.
\<close>

datatype jsval =
    Undefined
  | JNull
  | JBool bool
  | JNum real
  | JStr string
  | JArr "jsval list"
  | JObj "(string \<times> jsval) list"

subsection \<open>The handlers that answer with a success flag\<close>

text \<open>
  The reply of the handlers that answer \<^verbatim>\<open>{ success, ... }\<close>. \<^verbatim>\<open>JSON.parse\<close> is part of
  the platform: a handler that calls it takes, as its last argument, what the call does
  on the text the handler passes, \<open>Inl\<close> the message of the \<^verbatim>\<open>SyntaxError\<close> it throws or
  \<open>Inr\<close> the value it returns.
\<close>

record ipc_reply = js_result +
  success :: bool
  raw :: "string option"
  agents :: "Agent list option"
  sessions :: "jsval option"
  result :: "jsval option"

definition failure_reply :: "string option \<Rightarrow> ipc_reply" where
  "failure_reply message =
     \<lparr>error = message, success = False, raw = None, agents = None, sessions = None,
      result = None\<rparr>"

definition success_reply :: ipc_reply where
  "success_reply =
     \<lparr>error = None, success = True, raw = None, agents = None, sessions = None,
      result = None\<rparr>"

text \<open>\<^verbatim>\<open>ipcMain.handle('agents:list', ...)\<close>, from the result of the subprocess on.\<close>

definition agents_list_handler :: "exec_result \<Rightarrow> ipc_reply" where
  "agents_list_handler res =
     (if truthy_string (error res) then failure_reply (error res)
      else success_reply
             \<lparr>agents := Some (parse_agents (if truthy_string (stdout res)
                                              then the (stdout res) else []))\<rparr>)"

text \<open>\<^verbatim>\<open>ipcMain.handle('sessions:list', ...)\<close>, from the result of the subprocess on.\<close>

definition sessions_list_handler :: "exec_result \<Rightarrow> string + jsval \<Rightarrow> ipc_reply" where
  "sessions_list_handler res parsed =
     (if truthy_string (error res) then failure_reply (error res)
      else case parsed of
        Inr sessions_value \<Rightarrow> success_reply\<lparr>sessions := Some sessions_value\<rparr>
      | Inl message \<Rightarrow> (failure_reply (Some message))\<lparr>raw := stdout res\<rparr>)"

text \<open>
  \<^verbatim>\<open>ipcMain.handle('agent:run', ...)\<close>: the check of \<^verbatim>\<open>args.message\<close>, then from the
  result of the subprocess on.
\<close>

definition agent_run_handler :: "string option \<Rightarrow> exec_result \<Rightarrow> string + jsval \<Rightarrow> ipc_reply" where
  "agent_run_handler message res parsed =
     (if \<not> truthy_string message then failure_reply (Some ''Message is required'')
      else if truthy_string (error res) then failure_reply (error res)
      else case parsed of
        Inr result_value \<Rightarrow> success_reply\<lparr>result := Some result_value\<rparr>
      | Inl parse_error \<Rightarrow> success_reply\<lparr>result := map_option JStr (stdout res)\<rparr>)"

text \<open>The listing the specification gives as its example, and the marker lines of a
  listing with the names they carry.\<close>

definition example_listing :: string where
  "example_listing =
     ''- main\<newline>  Workspace: /w\<newline>  Model: gpt-x\<newline>- head (default)\<newline>  Workspace: /w2\<newline>  Model: gpt-y\<newline>''"

definition marker_lines :: "string \<Rightarrow> string list" where
  "marker_lines text = filter (\<lambda>trimmed. startsWith trimmed ''- '') (map trim (split_lines text))"

section \<open>The client's reading of the session list\<close>

text \<open>
  Source: \<^verbatim>\<open>GatewayClient.listSessions\<close>. The method throws in two ways: the \<^verbatim>\<open>Error\<close>
  it raises itself when the reply is not a success, and the \<^verbatim>\<open>TypeError\<close> of the
  platform when it calls \<^verbatim>\<open>.map\<close> on a value that has none or reads a property of
  \<^verbatim>\<open>null\<close>.
\<close>

datatype js_error = Error string | TypeError

fun truthy :: "jsval \<Rightarrow> bool" where
  "truthy Undefined = False"
| "truthy JNull = False"
| "truthy (JBool b) = b"
| "truthy (JNum x) = (x \<noteq> 0)"
| "truthy (JStr s) = (s \<noteq> [])"
| "truthy (JArr xs) = True"
| "truthy (JObj props) = True"

text \<open>
  Reading the property \<open>k\<close>, for the two keys the method reads (\<^verbatim>\<open>key\<close> and
  \<^verbatim>\<open>sessionKey\<close>) and the key \<^verbatim>\<open>sessions\<close>: only an object can have them.
\<close>

fun get_prop :: "jsval \<Rightarrow> string \<Rightarrow> js_error + jsval" where
  "get_prop Undefined k = Inl TypeError"
| "get_prop JNull k = Inl TypeError"
| "get_prop (JObj props) k = Inr (case map_of props k of None \<Rightarrow> Undefined | Some v \<Rightarrow> v)"
| "get_prop v k = Inr Undefined"

text \<open>Writing a property: in place when the object has the key, at the end otherwise.\<close>

fun set_prop :: "string \<Rightarrow> jsval \<Rightarrow> (string \<times> jsval) list \<Rightarrow> (string \<times> jsval) list" where
  "set_prop k v [] = [(k, v)]"
| "set_prop k v (p # props) = (if fst p = k then (k, v) # props else p # set_prop k v props)"

text \<open>
  The own enumerable properties that \<^verbatim>\<open>{ ...s }\<close> copies: those of an object, the
  indexed elements of an array, the indexed characters of a string, and none otherwise.
\<close>

fun spread :: "jsval \<Rightarrow> (string \<times> jsval) list" where
  "spread (JObj props) = props"
| "spread (JArr xs) = zip (map show_nat [0 ..< length xs]) xs"
| "spread (JStr s) = zip (map show_nat [0 ..< length s]) (map (\<lambda>ch. JStr [ch]) s)"
| "spread v = []"

text \<open>\<^verbatim>\<open>a || b\<close>.\<close>

definition js_or :: "jsval \<Rightarrow> jsval \<Rightarrow> jsval" where
  "js_or a b = (if truthy a then a else b)"

text \<open>
  The arrow function given to \<^verbatim>\<open>.map\<close>:
  \<^verbatim>\<open>s => ({ ...s, sessionKey: s.key || s.sessionKey, key: s.key || s.sessionKey })\<close>.
\<close>

definition normalize_session :: "jsval \<Rightarrow> js_error + jsval" where
  "normalize_session s =
     (case get_prop s ''key'' of
        Inl e \<Rightarrow> Inl e
      | Inr k \<Rightarrow>
          (case get_prop s ''sessionKey'' of
             Inl e \<Rightarrow> Inl e
           | Inr sk \<Rightarrow>
               Inr (JObj (set_prop ''key'' (js_or k sk)
                           (set_prop ''sessionKey'' (js_or k sk) (spread s))))))"

text \<open>The value both fields get for an object with the properties \<open>props\<close>.\<close>

definition session_key_value :: "(string \<times> jsval) list \<Rightarrow> jsval" where
  "session_key_value props =
     js_or (case map_of props ''key'' of None \<Rightarrow> Undefined | Some v \<Rightarrow> v)
           (case map_of props ''sessionKey'' of None \<Rightarrow> Undefined | Some v \<Rightarrow> v)"

text \<open>\<^verbatim>\<open>xs.map(f)\<close> for an \<open>f\<close> that can throw: the first exception ends the call.\<close>

fun map_throwing :: "('a \<Rightarrow> js_error + 'b) \<Rightarrow> 'a list \<Rightarrow> js_error + 'b list" where
  "map_throwing f [] = Inr []"
| "map_throwing f (x # xs) =
     (case f x of
        Inl e \<Rightarrow> Inl e
      | Inr y \<Rightarrow> (case map_throwing f xs of Inl e \<Rightarrow> Inl e | Inr ys \<Rightarrow> Inr (y # ys)))"

text \<open>
  \<^verbatim>\<open>res.sessions?.sessions || res.sessions || []\<close>, where \<^verbatim>\<open>res.sessions\<close> is \<open>v\<close>.
\<close>

definition session_list_of :: "jsval \<Rightarrow> jsval" where
  "session_list_of v =
     js_or (js_or (case get_prop v ''sessions'' of Inl e \<Rightarrow> Undefined | Inr inner \<Rightarrow> inner) v)
       (JArr [])"

definition listSessions :: "ipc_reply \<Rightarrow> js_error + jsval list" where
  "listSessions res =
     (if \<not> success res then
        Inl (Error (if truthy_string (error res) then the (error res)
                    else ''Failed to list sessions''))
      else
        case session_list_of (case sessions res of None \<Rightarrow> Undefined | Some v \<Rightarrow> v) of
          JArr xs \<Rightarrow> map_throwing normalize_session xs
        | other \<Rightarrow> Inl TypeError)"

text \<open>The document of the specification's example, as text and as the value
  \<^verbatim>\<open>JSON.parse\<close> returns for it.\<close>

definition example_sessions_text :: string where
  "example_sessions_text =
     [CHR ''{'', CHR 0x22] @ ''sessions'' @ [CHR 0x22] @ '':[{'' @ [CHR 0x22] @ ''key''
       @ [CHR 0x22, CHR '':'', CHR 0x22] @ ''agent:main:1'' @ [CHR 0x22] @ ''}]}''"

definition example_sessions_value :: jsval where
  "example_sessions_value = JObj [(''sessions'', JArr [JObj [(''key'', JStr ''agent:main:1'')]])]"

text \<open>A document whose only record has the empty string as its key.\<close>

definition empty_key_text :: string where
  "empty_key_text =
     [CHR ''{'', CHR 0x22] @ ''sessions'' @ [CHR 0x22] @ '':[{'' @ [CHR 0x22] @ ''key''
       @ [CHR 0x22, CHR '':'', CHR 0x22, CHR 0x22] @ ''}]}''"

text \<open>
  The property \<open>k\<close> of the object a call returned; \<open>None\<close> when the call threw, when it
  returned no object, or when the object has no property \<open>k\<close>.
\<close>

definition field_of :: "js_error + jsval \<Rightarrow> string \<Rightarrow> jsval option" where
  "field_of r k = (case r of Inr (JObj props) \<Rightarrow> map_of props k | _ \<Rightarrow> None)"

section \<open>The session hierarchy store\<close>

text \<open>
  Source: \<^verbatim>\<open>src/apps/claw_dashboard/src/contexts/SessionContext.tsx\<close>.

  The mapping is a plain JavaScript object indexed by session id; its own properties are
  the entries below, and the model of the mapping is the map of its own properties.
\<close>

record entry =
  parentId :: "string option"
  childIds :: "string list"
  label :: "string option"

type_synonym SessionMapping = "string \<rightharpoonup> entry"

text \<open>
  Reading \<^verbatim>\<open>updated[id]\<close> on a plain object finds the own property, and for the names
  below, when the object has no own property of that name, the member every object
  inherits from \<^verbatim>\<open>Object.prototype\<close>. Each of these inherited members is truthy, and none
  has a property \<^verbatim>\<open>childIds\<close>.
\<close>

definition inherited_names :: "string list" where
  "inherited_names =
     [''constructor'', ''__defineGetter__'', ''__defineSetter__'', ''hasOwnProperty'',
      ''__lookupGetter__'', ''__lookupSetter__'', ''isPrototypeOf'', ''propertyIsEnumerable'',
      ''toString'', ''valueOf'', ''__proto__'', ''toLocaleString'']"

definition inherited :: "string \<Rightarrow> bool" where
  "inherited k \<longleftrightarrow> k \<in> set inherited_names"

text \<open>
  What a call \<^verbatim>\<open>addSpawn(parentId, childId, label)\<close> does to the store: whether the
  function it hands to \<^verbatim>\<open>setMapping\<close> throws the \<^verbatim>\<open>TypeError\<close> of reading \<^verbatim>\<open>.includes\<close> of
  \<^verbatim>\<open>undefined\<close>; the mapping of the store afterwards; and whether the call wrote
  \<^verbatim>\<open>parentId\<close> onto an inherited member instead of an entry.
\<close>

record spawn_effect =
  thrown :: bool
  mapping_after :: SessionMapping
  wrote_inherited :: bool

text \<open>
  The function handed to \<^verbatim>\<open>setMapping\<close>, on the previous mapping \<open>prev\<close>.
  \<^item> \<open>updated1\<close>: after \<^verbatim>\<open>if (!updated[parentId]) updated[parentId] = { childIds: [] }\<close>.
    An inherited member counts as present, so no entry is made for such a parent.
  \<^item> \<open>updated2\<close>: after the initialisation of the child. When \<^verbatim>\<open>updated[childId]\<close> is
    an inherited member, the \<^verbatim>\<open>else\<close> branch writes \<^verbatim>\<open>parentId\<close> and the label onto that
    member and the mapping gets no entry.
  \<^item> Then \<^verbatim>\<open>updated[parentId].childIds.includes(childId)\<close>: when the parent has no entry
    it is an inherited member, \<^verbatim>\<open>.childIds\<close> is \<^verbatim>\<open>undefined\<close> and the call throws. The
    store then keeps the previous mapping; an entry the child already had was written
    in place before the throw, since \<^verbatim>\<open>{ ...prev }\<close> copies the entries by reference.
\<close>

definition addSpawn :: "string \<Rightarrow> string \<Rightarrow> string option \<Rightarrow> SessionMapping \<Rightarrow> spawn_effect" where
  "addSpawn parent child lbl prev =
     (let updated1 = (if prev parent = None \<and> \<not> inherited parent
                      then prev(parent \<mapsto> \<lparr>parentId = None, childIds = [], label = None\<rparr>)
                      else prev);
          updated2 = (case updated1 child of
                        None \<Rightarrow>
                          if inherited child then updated1
                          else updated1(child \<mapsto>
                                 \<lparr>parentId = Some parent, childIds = [], label = lbl\<rparr>)
                      | Some e \<Rightarrow>
                          updated1(child \<mapsto>
                            e\<lparr>parentId := Some parent,
                              label := (if truthy_string lbl then lbl else label e)\<rparr>));
          wrote = (updated1 child = None \<and> inherited child)
      in case updated2 parent of
           None \<Rightarrow>
             \<lparr>thrown = True,
              mapping_after = (case prev child of None \<Rightarrow> prev | Some e \<Rightarrow> updated2),
              wrote_inherited = wrote\<rparr>
         | Some e \<Rightarrow>
             \<lparr>thrown = False,
              mapping_after =
                (if child \<in> set (childIds e) then updated2
                 else updated2(parent \<mapsto> e\<lparr>childIds := childIds e @ [child]\<rparr>)),
              wrote_inherited = wrote\<rparr>)"

text \<open>
  \<^verbatim>\<open>getChildren(sessionId)\<close>, that is \<^verbatim>\<open>mapping[sessionId]?.childIds || []\<close>: the list of
  the entry, and the empty list when there is no entry (an inherited member has no
  \<^verbatim>\<open>childIds\<close>).
\<close>

definition getChildren :: "SessionMapping \<Rightarrow> string \<Rightarrow> string list" where
  "getChildren mapping sessionId =
     (case mapping sessionId of None \<Rightarrow> [] | Some e \<Rightarrow> childIds e)"

text \<open>The parent and the label an entry itself records; \<open>None\<close> when there is no entry.\<close>

definition entry_parent :: "SessionMapping \<Rightarrow> string \<Rightarrow> string option" where
  "entry_parent mapping sessionId =
     (case mapping sessionId of None \<Rightarrow> None | Some e \<Rightarrow> parentId e)"

definition entry_label :: "SessionMapping \<Rightarrow> string \<Rightarrow> string option" where
  "entry_label mapping sessionId =
     (case mapping sessionId of None \<Rightarrow> None | Some e \<Rightarrow> label e)"

definition clearMapping :: SessionMapping where
  "clearMapping = Map.empty"

text \<open>
  The states of the store: the empty mapping it starts from and returns to with
  \<^verbatim>\<open>clearMapping()\<close>, and the mapping left by a call of \<^verbatim>\<open>addSpawn\<close> in a state. (The
  mapping read back from local storage is one the store wrote there.)
\<close>

inductive mapping_state :: "SessionMapping \<Rightarrow> bool" where
  empty: "mapping_state clearMapping"
| spawn: "mapping_state m \<Longrightarrow> mapping_state (mapping_after (addSpawn parent child lbl m))"

text \<open>No entry lists a child twice.\<close>

definition no_duplicates :: "SessionMapping \<Rightarrow> bool" where
  "no_duplicates m \<longleftrightarrow> (\<forall>k e. m k = Some e \<longrightarrow> distinct (childIds e))"

section \<open>Backoff delay\<close>

lemma backoff_uncapped:
  assumes "n \<le> 4"
  shows "min (1000 * 2 ^ n) (16000::real) = 1000 * 2 ^ n"
proof -
  have "(2::real) ^ n \<le> 2 ^ 4" using assms by (intro power_increasing) auto
  then show ?thesis by simp
qed

lemma round_between:
  fixes x :: real and lo hi :: int
  assumes "of_int lo \<le> x" and "x \<le> of_int hi"
  shows "lo \<le> round x \<and> round x \<le> hi"
  using assms round_mono [of "of_int lo" x] round_mono [of x "of_int hi"] by simp

text \<open>
  C2, as amended. For an attempt count \<open>n \<le> 4\<close> and a draw in \<open>[0, 1)\<close> the delay lies
  within 25 percent of \<open>1000 \<times> 2 ^ n\<close> milliseconds. The cap of 16000 ms is on the
  exponential term, before the jitter is added: for every attempt count the delay lies
  within 25 percent of the capped term, so it never exceeds 20000 ms.
\<close>

theorem backoff_delay_bounds:
  assumes "0 \<le> rnd" and "rnd < 1"
  shows "(n \<le> 4 \<longrightarrow>
            750 * 2 ^ n \<le> getBackoffDelay n rnd \<and> getBackoffDelay n rnd \<le> 1250 * 2 ^ n)
         \<and> getBackoffDelay n rnd \<le> 20000"
proof -
  define d :: real where "d = min (1000 * 2 ^ n) 16000"
  have d_pos: "0 \<le> d" and d_cap: "d \<le> 16000" by (simp_all add: d_def)
  have delay: "getBackoffDelay n rnd = round (d + d * 0.25 * (rnd * 2 - 1))"
    by (simp add: getBackoffDelay_def Let_def d_def)
  have b1: "- 1 \<le> rnd * 2 - 1" and b2: "rnd * 2 - 1 \<le> 1" using assms by simp_all
  have "d * (- 1) \<le> d * (rnd * 2 - 1)" by (rule mult_left_mono [OF b1 d_pos])
  moreover have "d * (rnd * 2 - 1) \<le> d * 1" by (rule mult_left_mono [OF b2 d_pos])
  ultimately have lo: "0.75 * d \<le> d + d * 0.25 * (rnd * 2 - 1)"
    and hi: "d + d * 0.25 * (rnd * 2 - 1) \<le> 1.25 * d" by simp_all
  have within: "750 * 2 ^ n \<le> getBackoffDelay n rnd \<and> getBackoffDelay n rnd \<le> 1250 * 2 ^ n"
    if "n \<le> 4"
  proof -
    from that have "d = 1000 * 2 ^ n" by (simp add: d_def backoff_uncapped)
    with lo hi have "of_int (750 * 2 ^ n) \<le> d + d * 0.25 * (rnd * 2 - 1)"
      and "d + d * 0.25 * (rnd * 2 - 1) \<le> of_int (1250 * 2 ^ n)" by simp_all
    then show ?thesis unfolding delay by (rule round_between)
  qed
  from hi d_cap have "d + d * 0.25 * (rnd * 2 - 1) \<le> of_int 20000" by simp
  from round_mono [OF this] have "getBackoffDelay n rnd \<le> 20000"
    unfolding delay by simp
  with within show ?thesis by blast
qed

theorem backoff_delay_bounds_witness:
  "(0::real) \<le> 1 / 2 \<and> (1 / 2 :: real) < 1 \<and> (3::nat) \<le> 4
   \<and> 750 * 2 ^ 3 \<le> getBackoffDelay 3 (1 / 2)
   \<and> getBackoffDelay 3 (1 / 2) \<le> 1250 * 2 ^ 3
   \<and> getBackoffDelay 3 (1 / 2) \<le> 20000"
  using backoff_delay_bounds [of "1 / 2" 3] by simp

text \<open>
  C2 as stated fails: at the last attempt count the exponential term is at its cap, and a
  draw above one half adds jitter on top of it.
\<close>

theorem backoff_delay_exceeds_cap:
  "(0::real) \<le> 3 / 4 \<and> (3 / 4 :: real) < 1 \<and> (4::nat) \<le> 4
   \<and> getBackoffDelay 4 (3 / 4) = 18000 \<and> \<not> getBackoffDelay 4 (3 / 4) \<le> 16000"
  by (simp add: getBackoffDelay_def Let_def)

section \<open>Properties of the connection state machine\<close>

lemmas client_defs = emit_def setTimeout_def clearTimeout_def setInterval_def clearInterval_def
  stopHeartbeat_def startHeartbeat_def attemptReconnect_def connect_catch_def connect_begin_def
  connect_resume_def disconnect_def reconnect_def heartbeat_catch_def heartbeat_resume_def
  Let_def

lemma show_nat_5: "show_nat 5 = ''5''"
  by code_simp

lemma max_attempts_message_5:
  "max_attempts_message 5 = ''Max reconnect attempts (5) reached''"
  by (simp add: max_attempts_message_def show_nat_5)

lemma probe_fails_gateway_down: "probe_fails gateway_down"
  by (simp add: gateway_down_def gatewayStatus_def truthy_string_def)

text \<open>A property that every step keeps holds after every run.\<close>

lemma run_invariant:
  assumes "P c" and "\<And>rnd a c. P c \<Longrightarrow> P (step rnd a c)"
  shows "P (run evs c)"
  using assms(1)
proof (induction evs arbitrary: c)
  case Nil
  then show ?case by simp
next
  case (Cons e evs)
  obtain rnd a where "e = (rnd, a)" by (cases e)
  with Cons assms(2) show ?case by simp
qed

lemma removeAll_only: "set xs \<subseteq> {h} \<Longrightarrow> removeAll h xs = []"
  by (induction xs) auto

subsection \<open>Giving up after the last attempt\<close>

text \<open>
  The branch of \<^verbatim>\<open>attemptReconnect()\<close> taken when the attempts are used up: the state
  becomes \<^verbatim>\<open>disconnected\<close>, the terminal error is emitted, and nothing else changes; in
  particular no timer is set.
\<close>

lemma attemptReconnect_exhausted:
  assumes "\<not> isManualDisconnect c" and "maxReconnectAttempts c \<le> reconnectAttempts c"
  shows "attemptReconnect rnd c =
           c\<lparr>state := Disconnected,
              events := events c @ [EvError (max_attempts_message (maxReconnectAttempts c))]\<rparr>"
  using assms by (simp add: attemptReconnect_def emit_def)

lemma failed_attempt_waiting:
  assumes "waiting k h c" and "k < 5" and "probe_fails outcome"
  shows "waiting (Suc k) (Suc h)
           (step rnd' (ConnectProbeSettles outcome) (step rnd (ReconnectTimerFires h) c))"
  using assms by (cases outcome) (auto simp: waiting_def client_defs)

lemma failed_attempt_gave_up:
  assumes "waiting 5 h c" and "probe_fails outcome"
  shows "gave_up
           (step rnd' (ConnectProbeSettles outcome) (step rnd (ReconnectTimerFires h) c))"
  using assms
  by (cases outcome) (auto simp: waiting_def gave_up_def client_defs max_attempts_message_5)

lemma reconnect_attempts_gave_up:
  assumes "waiting k h c" and "1 \<le> k" and "k \<le> 5" and "length fs = 6 - k"
    and "\<forall>f \<in> set fs. probe_fails (snd f)"
  shows "gave_up (run (reconnect_attempts h fs) c)"
  using assms
proof (induction fs arbitrary: k h c)
  case Nil
  then show ?case by simp
next
  case (Cons f fs)
  obtain rnd outcome where f: "f = (rnd, outcome)" by (cases f)
  with Cons.prems have fails: "probe_fails outcome" by simp
  let ?c = "step rnd (ConnectProbeSettles outcome) (step rnd (ReconnectTimerFires h) c)"
  show ?case
  proof (cases "k = 5")
    case True
    with Cons.prems have "fs = []" by simp
    moreover from True Cons.prems(1) have "waiting 5 h c" by simp
    then have "gave_up ?c" using fails by (rule failed_attempt_gave_up)
    ultimately show ?thesis by (simp add: f)
  next
    case False
    with Cons.prems have k: "k < 5" by simp
    from Cons.prems(1) k fails have "waiting (Suc k) (Suc h) ?c"
      by (rule failed_attempt_waiting)
    moreover from k Cons.prems have "1 \<le> Suc k" "Suc k \<le> 5" "length fs = 6 - Suc k"
      "\<forall>f \<in> set fs. probe_fails (snd f)" by simp_all
    ultimately have "gave_up (run (reconnect_attempts (Suc h) fs) ?c)"
      by (rule Cons.IH)
    then show ?thesis by (simp add: f)
  qed
qed

text \<open>A first failed \<^verbatim>\<open>connect()\<close> on a fresh client leaves the first attempt pending.\<close>

lemma first_failure_waiting:
  assumes "probe_fails outcome"
  shows "waiting 1 1
           (run [(rnd, Connect), (rnd', ConnectProbeSettles outcome)] (new_client True))"
  using assms by (cases outcome) (auto simp: waiting_def new_client_def client_defs)

text \<open>Once the client has given up, only \<^verbatim>\<open>connect()\<close> and \<^verbatim>\<open>reconnect()\<close> change it.\<close>

lemma gave_up_stays:
  assumes "gave_up c" and "\<not> explicit_connect a"
  shows "step rnd a c = c"
  using assms by (cases a) (auto simp: gave_up_def disconnect_def)

lemma gave_up_run_stays:
  assumes "gave_up c" and "\<forall>e \<in> set evs. \<not> explicit_connect (snd e)"
  shows "run evs c = c"
  using assms
proof (induction evs)
  case Nil
  then show ?case by simp
next
  case (Cons e evs)
  obtain rnd a where e: "e = (rnd, a)" by (cases e)
  with Cons.prems have "step rnd a c = c" by (simp add: gave_up_stays)
  with Cons e show ?case by simp
qed

text \<open>
  A sequence of attempts with nothing else live. Take a client whose first reconnect
  attempt is pending, with no other timer live and no probe on its way, and let that
  attempt and the four it leads to fail, for any jitter draws and any way the status
  probes fail. After the fifth failure the client has given up: its state is
  \<^verbatim>\<open>disconnected\<close>, the attempt counter stands at the maximum of 5, the last event
  emitted is the terminal error, and no timer is live and no probe is on its way.
  Whatever happens next that is not a call of \<^verbatim>\<open>connect()\<close> or \<^verbatim>\<open>reconnect()\<close> leaves
  the client as it is.
\<close>

lemma single_chain_gives_up:
  assumes "waiting 1 h c" and "length fs = 5" and "\<forall>f \<in> set fs. probe_fails (snd f)"
    and "\<forall>e \<in> set later. \<not> explicit_connect (snd e)"
  shows "gave_up (run (reconnect_attempts h fs) c)
       \<and> run later (run (reconnect_attempts h fs) c) = run (reconnect_attempts h fs) c"
proof -
  have "gave_up (run (reconnect_attempts h fs) c)"
  proof (rule reconnect_attempts_gave_up [where k = 1])
    show "waiting 1 h c" by (rule assms(1))
    show "length fs = 6 - 1" using assms(2) by simp
    show "\<forall>f \<in> set fs. probe_fails (snd f)" by (rule assms(3))
  qed simp_all
  with assms(4) show ?thesis by (simp add: gave_up_run_stays)
qed

lemma single_chain_gives_up_example:
  "waiting 1 1 first_attempt_pending
   \<and> length five_failures = 5
   \<and> list_all (\<lambda>f. probe_fails (snd f)) five_failures
   \<and> list_all (\<lambda>e. \<not> explicit_connect (snd e))
        [(1 / 2, ReconnectTimerFires 5), (1 / 2, HeartbeatTimerFires 1)]
   \<and> state (run (reconnect_attempts 1 five_failures) first_attempt_pending) = Disconnected
   \<and> reconnectAttempts (run (reconnect_attempts 1 five_failures) first_attempt_pending) = 5
   \<and> timeouts (run (reconnect_attempts 1 five_failures) first_attempt_pending) = []
   \<and> last (events (run (reconnect_attempts 1 five_failures) first_attempt_pending))
       = EvError ''Max reconnect attempts (5) reached''
   \<and> run [(1 / 2, ReconnectTimerFires 5), (1 / 2, HeartbeatTimerFires 1)]
         (run (reconnect_attempts 1 five_failures) first_attempt_pending)
       = run (reconnect_attempts 1 five_failures) first_attempt_pending"
proof -
  have w: "waiting 1 1 first_attempt_pending"
    unfolding first_attempt_pending_def
    by (rule first_failure_waiting) (rule probe_fails_gateway_down)
  have l: "length five_failures = 5" by (simp add: five_failures_def)
  have f: "\<forall>f \<in> set five_failures. probe_fails (snd f)"
    by (simp add: five_failures_def probe_fails_gateway_down)
  have e: "\<forall>e \<in> set [(1 / 2 :: real, ReconnectTimerFires 5), (1 / 2, HeartbeatTimerFires 1)].
             \<not> explicit_connect (snd e)" by simp
  from single_chain_gives_up [OF w l f e] w l f e
  show ?thesis by (simp add: gave_up_def list_all_iff)
qed


subsection \<open>Heartbeat failure\<close>

text \<open>
  C3 as stated fails. \<^verbatim>\<open>disconnect()\<close> called while \<^verbatim>\<open>connect()\<close> waits for its probe
  sets the manual-disconnect flag; when the probe then succeeds, \<^verbatim>\<open>connect()\<close> goes on to
  mark the client \<^verbatim>\<open>connected\<close> and to start the heartbeat, with the flag still set. A
  heartbeat failure in that state ends in \<^verbatim>\<open>disconnected\<close> with no reconnect scheduled,
  although no attempt has been used.
\<close>

theorem heartbeat_failure_after_manual_disconnect:
  "state (run overtaken_connect (new_client True)) = Connected
   \<and> reconnectAttempts (run overtaken_connect (new_client True))
       < maxReconnectAttempts (run overtaken_connect (new_client True))
   \<and> probe_fails gateway_down
   \<and> state (step (1 / 2) (HeartbeatProbeSettles gateway_down)
              (run overtaken_connect (new_client True))) = Disconnected
   \<and> timeouts (step (1 / 2) (HeartbeatProbeSettles gateway_down)
              (run overtaken_connect (new_client True))) = []"
  by (simp add: overtaken_connect_def gateway_down_def gateway_up_def new_client_def client_defs
      gatewayStatus_def truthy_string_def)

text \<open>
  C3, as amended. When a heartbeat probe fails while the client is \<^verbatim>\<open>connected\<close>, the
  handler stops the heartbeat and runs the reconnect procedure. If the manual-disconnect
  flag is clear and attempts are left, the client ends in \<^verbatim>\<open>reconnecting\<close> with one more
  attempt counted and a new reconnect timer live. If the attempts are used up, or if the
  manual-disconnect flag is set, it ends in \<^verbatim>\<open>disconnected\<close> and no timer is set.
\<close>

theorem heartbeat_failure_reconnects:
  assumes "state c = Connected" and "0 < heartbeatsInFlight c" and "probe_fails outcome"
  shows "let c' = step rnd (HeartbeatProbeSettles outcome) c in
           heartbeatTimer c' = None
         \<and> (\<forall>h. heartbeatTimer c = Some h \<longrightarrow> h \<notin> set (intervals c'))
         \<and> (\<not> isManualDisconnect c \<and> reconnectAttempts c < maxReconnectAttempts c \<longrightarrow>
              state c' = Reconnecting \<and> reconnectTimer c' = Some (nextTimer c)
              \<and> timeouts c' = timeouts c @ [nextTimer c]
              \<and> reconnectAttempts c' = Suc (reconnectAttempts c))
         \<and> (\<not> isManualDisconnect c \<and> maxReconnectAttempts c \<le> reconnectAttempts c \<longrightarrow>
              state c' = Disconnected \<and> timeouts c' = timeouts c)
         \<and> (isManualDisconnect c \<longrightarrow> state c' = Disconnected \<and> timeouts c' = timeouts c)"
  using assms by (cases outcome) (auto simp: client_defs split: option.splits)

theorem heartbeat_failure_reconnects_witness:
  "state connected_client = Connected \<and> 0 < heartbeatsInFlight connected_client
   \<and> probe_fails gateway_down \<and> \<not> isManualDisconnect connected_client
   \<and> reconnectAttempts connected_client < maxReconnectAttempts connected_client
   \<and> heartbeatTimer connected_client = Some 1
   \<and> state (step (1 / 2) (HeartbeatProbeSettles gateway_down) connected_client) = Reconnecting
   \<and> heartbeatTimer (step (1 / 2) (HeartbeatProbeSettles gateway_down) connected_client) = None
   \<and> 1 \<notin> set (intervals (step (1 / 2) (HeartbeatProbeSettles gateway_down) connected_client))
   \<and> timeouts (step (1 / 2) (HeartbeatProbeSettles gateway_down) connected_client) = [2]"
proof -
  have c: "state connected_client = Connected" "0 < heartbeatsInFlight connected_client"
    "\<not> isManualDisconnect connected_client"
    "reconnectAttempts connected_client < maxReconnectAttempts connected_client"
    "timeouts connected_client = []" "nextTimer connected_client = 2"
    "heartbeatTimer connected_client = Some 1"
    by (simp_all add: connected_client_def gateway_up_def new_client_def client_defs
        gatewayStatus_def truthy_string_def)
  from heartbeat_failure_reconnects [OF c(1) c(2) probe_fails_gateway_down, of "1 / 2"] c
  show ?thesis by (simp add: Let_def probe_fails_gateway_down)
qed

text \<open>
  Attempts are always left in the state \<^verbatim>\<open>connected\<close>: the counter is reset when that
  state is entered and is raised only on the way to \<^verbatim>\<open>reconnecting\<close>.
\<close>

lemma connected_has_attempts_left_step:
  assumes "maxReconnectAttempts c = 5 \<and> (state c = Connected \<longrightarrow> reconnectAttempts c = 0)"
  shows "maxReconnectAttempts (step rnd a c) = 5
         \<and> (state (step rnd a c) = Connected \<longrightarrow> reconnectAttempts (step rnd a c) = 0)"
  using assms
  by (cases a) (auto simp: client_defs split: option.splits ipc_outcome.splits)

lemma connected_has_attempts_left:
  "maxReconnectAttempts (run evs (new_client ipc)) = 5
   \<and> (state (run evs (new_client ipc)) = Connected
        \<longrightarrow> reconnectAttempts (run evs (new_client ipc)) = 0)"
  by (rule run_invariant) (simp add: new_client_def, rule connected_has_attempts_left_step)

subsection \<open>Live timers\<close>

text \<open>
  The heartbeat half of the timer guarantee holds in every state a client can reach:
  \<^verbatim>\<open>startHeartbeat()\<close> clears the timer it holds before it sets a new one, so the only live
  interval timer is the one held in \<^verbatim>\<open>heartbeatTimer\<close>.
\<close>

lemma heartbeat_unique_step:
  assumes "heartbeat_unique c"
  shows "heartbeat_unique (step rnd a c)"
  using assms unfolding heartbeat_unique_def
  by (cases a) (auto simp: client_defs split: option.splits ipc_outcome.splits)

lemma heartbeat_timer_unique: "heartbeat_unique (run evs (new_client ipc))"
  by (rule run_invariant) (simp add: heartbeat_unique_def new_client_def, rule heartbeat_unique_step)

lemma at_most_one_heartbeat_timer: "length (intervals (run evs (new_client ipc))) \<le> 1"
  using heartbeat_timer_unique [of evs ipc]
  by (simp add: heartbeat_unique_def split: option.splits)

text \<open>
  C5, at the input where the code breaks it. \<^verbatim>\<open>attemptReconnect()\<close> stores the new timer
  in \<^verbatim>\<open>reconnectTimer\<close> without clearing the one held there. After two overlapping
  \<^verbatim>\<open>reconnect()\<close> calls whose probes both fail, each call has scheduled a reconnect: the
  timers 1 and 2 are both live, and the client holds only timer 2.
\<close>

theorem two_reconnect_timers_live:
  "timeouts (run double_reconnect (new_client True)) = [1, 2]
   \<and> reconnectTimer (run double_reconnect (new_client True)) = Some 2
   \<and> state (run double_reconnect (new_client True)) = Reconnecting
   \<and> \<not> length (timeouts (run double_reconnect (new_client True))) \<le> 1"
  by (simp add: double_reconnect_def gateway_down_def new_client_def client_defs
      gatewayStatus_def truthy_string_def)

text \<open>
  The same happens without overlapping calls: \<^verbatim>\<open>connect()\<close> on a connected client leaves
  the heartbeat running, so when that call fails and the next heartbeat fails too, both
  schedule a reconnect.
\<close>

lemma two_reconnect_timers_live_sequential:
  "timeouts (run [(1 / 2, Connect), (1 / 2, ConnectProbeSettles gateway_up),
                  (1 / 2, Connect), (1 / 2, ConnectProbeSettles gateway_down),
                  (1 / 2, HeartbeatTimerFires 1), (1 / 2, HeartbeatProbeSettles gateway_down)]
               (new_client True)) = [2, 3]"
  by (simp add: gateway_down_def gateway_up_def new_client_def client_defs
      gatewayStatus_def truthy_string_def)

subsection \<open>Manual disconnect while reconnecting\<close>

text \<open>
  C4, at the input where the code breaks it. In the state reached above the client is
  \<^verbatim>\<open>reconnecting\<close> and holds the pending timer 2. \<^verbatim>\<open>disconnect()\<close> cancels that timer and
  sets the manual-disconnect flag, but timer 1 stays live. When it fires it calls
  \<^verbatim>\<open>connect()\<close>, which emits \<^verbatim>\<open>connecting\<close> although neither \<^verbatim>\<open>connect()\<close> nor
  \<^verbatim>\<open>reconnect()\<close> was called after the disconnect.
\<close>

theorem orphan_timer_reconnects_after_disconnect:
  "state (run double_reconnect (new_client True)) = Reconnecting
   \<and> reconnectTimer (run double_reconnect (new_client True)) = Some 2
   \<and> 2 \<in> set (timeouts (run double_reconnect (new_client True)))
   \<and> timeouts (run (double_reconnect @ [(1 / 2, Disconnect)]) (new_client True)) = [1]
   \<and> isManualDisconnect (run (double_reconnect @ [(1 / 2, Disconnect)]) (new_client True))
   \<and> events (run (double_reconnect @ [(1 / 2, Disconnect), (1 / 2, ReconnectTimerFires 1)])
               (new_client True))
     = events (run (double_reconnect @ [(1 / 2, Disconnect)]) (new_client True)) @ [EvConnecting]"
  by (simp add: double_reconnect_def gateway_down_def new_client_def client_defs
      gatewayStatus_def truthy_string_def)

text \<open>
  When the timer the client holds is the only live reconnect timer, \<^verbatim>\<open>disconnect()\<close>
  does what C4 says: the timer is cancelled, the flag is set, and no later step other
  than a call of \<^verbatim>\<open>connect()\<close> or \<^verbatim>\<open>reconnect()\<close> emits \<^verbatim>\<open>connecting\<close>.
\<close>

lemma silenced_step:
  assumes "silenced c" and "\<not> explicit_connect a"
  shows "silenced (step rnd a c)
         \<and> count_list (events (step rnd a c)) EvConnecting = count_list (events c) EvConnecting"
  using assms unfolding silenced_def
  by (cases a) (auto simp: client_defs split: option.splits ipc_outcome.splits)

lemma silenced_run:
  assumes "silenced c" and "\<forall>e \<in> set evs. \<not> explicit_connect (snd e)"
  shows "count_list (events (run evs c)) EvConnecting = count_list (events c) EvConnecting"
  using assms
proof (induction evs arbitrary: c)
  case Nil
  then show ?case by simp
next
  case (Cons e evs)
  obtain rnd a where e: "e = (rnd, a)" by (cases e)
  with Cons.prems silenced_step [of c a rnd]
  have "silenced (step rnd a c)"
    and "count_list (events (step rnd a c)) EvConnecting = count_list (events c) EvConnecting"
    by simp_all
  with Cons e show ?case by simp
qed

lemma disconnect_silences_single_timer:
  assumes "state c = Reconnecting" and "reconnectTimer c = Some h"
    and "set (timeouts c) \<subseteq> {h}"
    and "\<forall>e \<in> set evs. \<not> explicit_connect (snd e)"
  shows "timeouts (disconnect c) = [] \<and> isManualDisconnect (disconnect c)
         \<and> count_list (events (run evs (disconnect c))) EvConnecting
             = count_list (events c) EvConnecting"
proof -
  have t: "timeouts (disconnect c) = []" and m: "isManualDisconnect (disconnect c)"
    and ev: "count_list (events (disconnect c)) EvConnecting = count_list (events c) EvConnecting"
    using assms(1-3) by (auto simp: client_defs removeAll_only split: option.splits)
  then have "silenced (disconnect c)" by (simp add: silenced_def)
  with assms(4) ev t m show ?thesis by (simp add: silenced_run)
qed

section \<open>Properties of the IPC handlers\<close>

subsection \<open>The status probe\<close>

text \<open>
  C10. The message of the error that \<^verbatim>\<open>execFile\<close> reports is taken to be non-empty (it
  names the command that failed or the system call that could not spawn it). Then the
  \<^verbatim>\<open>gateway:status\<close> handler answers \<^verbatim>\<open>running: true\<close> exactly when the subprocess ran
  without error, whatever it printed; on an error it answers \<^verbatim>\<open>running: false\<close> with the
  message in \<^verbatim>\<open>output\<close>; it never sets \<^verbatim>\<open>error\<close>, so \<^verbatim>\<open>gatewayStatus()\<close> never takes its
  error branch on an answer of this handler; and a status probe answered by this handler
  fails exactly when the subprocess failed: a heartbeat probe that ran leaves the client
  as it is, whatever the output says.
\<close>

theorem gateway_status_probe:
  assumes "err \<noteq> Some []"
  shows "(running (gateway_status_handler (execOpenClaw err out)) = Some True \<longleftrightarrow> err = None)
       \<and> (running (gateway_status_handler (execOpenClaw err out)) = Some False \<longleftrightarrow> err \<noteq> None)
       \<and> (\<forall>message. err = Some message \<longrightarrow>
            gateway_status_handler (execOpenClaw err out)
              = \<lparr>error = None, running = Some False, output_str = Some message\<rparr>)
       \<and> error (gateway_status_handler (execOpenClaw err out)) = None
       \<and> gatewayStatus (gateway_status_handler (execOpenClaw err out))
           = \<lparr>error = None, running = Some (err = None),
              output_str = output_str (gateway_status_handler (execOpenClaw err out))\<rparr>
       \<and> (probe_fails (Replied (gateway_status_handler (execOpenClaw err out))) \<longleftrightarrow> err \<noteq> None)
       \<and> (0 < heartbeatsInFlight c \<longrightarrow>
            step rnd (HeartbeatProbeSettles
                        (Replied (gateway_status_handler (execOpenClaw None out)))) c
              = c\<lparr>heartbeatsInFlight := heartbeatsInFlight c - 1\<rparr>)"
  using assms
  by (cases err)
     (auto simp: gateway_status_handler_def execOpenClaw_def gatewayStatus_def truthy_string_def
        heartbeat_resume_def)

theorem gateway_status_probe_witness:
  "Some ''spawn openclaw ENOENT'' \<noteq> Some []
   \<and> gateway_status_handler
       (execOpenClaw (Some ''spawn openclaw ENOENT'') (Some ''Gateway: stopped''))
     = \<lparr>error = None, running = Some False, output_str = Some ''spawn openclaw ENOENT''\<rparr>
   \<and> probe_fails (Replied (gateway_status_handler
       (execOpenClaw (Some ''spawn openclaw ENOENT'') (Some ''Gateway: stopped''))))
   \<and> 0 < heartbeatsInFlight connected_client
   \<and> step (1 / 2) (HeartbeatProbeSettles
        (Replied (gateway_status_handler (execOpenClaw None (Some ''Gateway: stopped'')))))
        connected_client
     = connected_client\<lparr>heartbeatsInFlight := heartbeatsInFlight connected_client - 1\<rparr>"
proof -
  have e: "Some ''spawn openclaw ENOENT'' \<noteq> Some []" by simp
  have c: "0 < heartbeatsInFlight connected_client"
    by (simp add: connected_client_def gateway_up_def new_client_def client_defs
        gatewayStatus_def truthy_string_def)
  note probe = gateway_status_probe [OF e, of "Some ''Gateway: stopped''" connected_client "1 / 2"]
  from probe have h: "gateway_status_handler
       (execOpenClaw (Some ''spawn openclaw ENOENT'') (Some ''Gateway: stopped''))
     = \<lparr>error = None, running = Some False, output_str = Some ''spawn openclaw ENOENT''\<rparr>"
    by blast
  from probe have p: "probe_fails (Replied (gateway_status_handler
       (execOpenClaw (Some ''spawn openclaw ENOENT'') (Some ''Gateway: stopped''))))"
    by blast
  from probe c have s: "step (1 / 2) (HeartbeatProbeSettles
        (Replied (gateway_status_handler (execOpenClaw None (Some ''Gateway: stopped'')))))
        connected_client
     = connected_client\<lparr>heartbeatsInFlight := heartbeatsInFlight connected_client - 1\<rparr>"
    by blast
  from e h p c s show ?thesis by blast
qed

subsection \<open>JSON output that does not parse\<close>

text \<open>
  C6 as stated fails for \<^verbatim>\<open>agent:run\<close>: when \<^verbatim>\<open>JSON.parse\<close> throws on the output of the
  CLI, the \<^verbatim>\<open>catch\<close> block of that handler answers with \<^verbatim>\<open>success: true\<close>, no error and
  no \<^verbatim>\<open>raw\<close> field.
\<close>

theorem agent_run_swallows_parse_failure:
  "success (agent_run_handler (Some ''hi'') (execOpenClaw None (Some ''not json''))
              (Inl ''Unexpected token o in JSON at position 1''))
   \<and> error (agent_run_handler (Some ''hi'') (execOpenClaw None (Some ''not json''))
              (Inl ''Unexpected token o in JSON at position 1'')) = None
   \<and> raw (agent_run_handler (Some ''hi'') (execOpenClaw None (Some ''not json''))
              (Inl ''Unexpected token o in JSON at position 1'')) = None"
  by (simp add: agent_run_handler_def execOpenClaw_def success_reply_def truthy_string_def)

text \<open>
  C6, as amended. When the CLI ran and \<^verbatim>\<open>JSON.parse\<close> throws on its output, the
  \<^verbatim>\<open>sessions:list\<close> handler answers with \<^verbatim>\<open>success: false\<close>, the message of the parse
  error in \<^verbatim>\<open>error\<close> and the output of the CLI in \<^verbatim>\<open>raw\<close>; the \<^verbatim>\<open>agent:run\<close> handler,
  given a message to send, answers with \<^verbatim>\<open>success: true\<close> and the output of the CLI, as a
  string, in \<^verbatim>\<open>result\<close>.
\<close>

theorem json_parse_failure_replies:
  assumes "truthy_string message"
  shows "sessions_list_handler (execOpenClaw None out) (Inl parse_error)
           = \<lparr>error = Some parse_error, success = False,
              raw = Some (if truthy_string out then the out else []),
              agents = None, sessions = None, result = None\<rparr>
       \<and> agent_run_handler message (execOpenClaw None out) (Inl parse_error)
           = \<lparr>error = None, success = True, raw = None, agents = None, sessions = None,
              result = Some (JStr (if truthy_string out then the out else []))\<rparr>"
  using assms
  by (simp add: sessions_list_handler_def agent_run_handler_def execOpenClaw_def
      failure_reply_def success_reply_def truthy_string_def)

theorem json_parse_failure_replies_witness:
  "truthy_string (Some ''hi'')
   \<and> sessions_list_handler (execOpenClaw None (Some ''not json'')) (Inl ''Unexpected token'')
       = \<lparr>error = Some ''Unexpected token'', success = False, raw = Some ''not json'',
          agents = None, sessions = None, result = None\<rparr>
   \<and> agent_run_handler (Some ''hi'') (execOpenClaw None (Some ''not json''))
         (Inl ''Unexpected token'')
       = \<lparr>error = None, success = True, raw = None, agents = None, sessions = None,
          result = Some (JStr ''not json'')\<rparr>"
proof -
  have t: "truthy_string (Some ''hi'')" by (simp add: truthy_string_def)
  from json_parse_failure_replies [OF t, of "Some ''not json''" "''Unexpected token''"] t
  show ?thesis by (simp add: truthy_string_def)
qed

subsection \<open>The listing parser\<close>

text \<open>
  The identifiers of the parsed records are the names of the marker lines, in order:
  every marker line yields a record, the last one too, although no marker line follows
  it to push it.
\<close>

lemma parse_lines_ids:
  "map agent_id (push_last (parse_lines ls acc cur))
     = map agent_id (push_last (acc, cur))
       @ map (\<lambda>trimmed. agent_id (new_agent trimmed))
           (filter (\<lambda>trimmed. startsWith trimmed ''- '') (map trim ls))"
proof (induction ls arbitrary: acc cur)
  case Nil
  then show ?case by simp
next
  case (Cons line ls)
  show ?case
    by (cases cur) (simp_all add: Cons.IH Let_def)
qed

lemma parse_agents_ids:
  "map agent_id (parse_agents listing)
     = map (\<lambda>trimmed. agent_id (new_agent trimmed)) (marker_lines listing)"
  by (simp add: parse_agents_def parse_lines_ids marker_lines_def)

lemma parse_agents_example:
  "parse_agents example_listing =
     [\<lparr>agent_id = ''main'', name = ''main'', isDefault = False,
        workspace = ''/w'', model = ''gpt-x''\<rparr>,
      \<lparr>agent_id = ''head'', name = ''head'', isDefault = True,
        workspace = ''/w2'', model = ''gpt-y''\<rparr>]"
  by code_simp

text \<open>
  C7. On the listing of the specification's example the \<^verbatim>\<open>agents:list\<close> handler answers
  with exactly two records: \<^verbatim>\<open>main\<close> with workspace \<^verbatim>\<open>/w\<close> and model \<^verbatim>\<open>gpt-x\<close>, not the
  default, and \<^verbatim>\<open>head\<close> with workspace \<^verbatim>\<open>/w2\<close> and model \<^verbatim>\<open>gpt-y\<close>, the default. On every
  listing the parser returns one record for each marker line, in order and under the
  name of its line, so the record of the last marker line is there when the input ends.
\<close>

theorem listing_parser_flushes_last_record:
  "agents_list_handler (execOpenClaw None (Some example_listing))
     = \<lparr>error = None, success = True, raw = None,
        agents = Some
          [\<lparr>agent_id = ''main'', name = ''main'', isDefault = False,
             workspace = ''/w'', model = ''gpt-x''\<rparr>,
           \<lparr>agent_id = ''head'', name = ''head'', isDefault = True,
             workspace = ''/w2'', model = ''gpt-y''\<rparr>],
        sessions = None, result = None\<rparr>
   \<and> length (parse_agents listing) = length (marker_lines listing)
   \<and> map agent_id (parse_agents listing)
       = map (\<lambda>trimmed. agent_id (new_agent trimmed)) (marker_lines listing)"
proof (intro conjI)
  have "truthy_string (Some example_listing)"
    by (simp add: truthy_string_def example_listing_def)
  then show "agents_list_handler (execOpenClaw None (Some example_listing))
     = \<lparr>error = None, success = True, raw = None,
        agents = Some
          [\<lparr>agent_id = ''main'', name = ''main'', isDefault = False,
             workspace = ''/w'', model = ''gpt-x''\<rparr>,
           \<lparr>agent_id = ''head'', name = ''head'', isDefault = True,
             workspace = ''/w2'', model = ''gpt-y''\<rparr>],
        sessions = None, result = None\<rparr>"
    by (simp add: agents_list_handler_def execOpenClaw_def success_reply_def
        parse_agents_example truthy_string_def)
  show ids: "map agent_id (parse_agents listing)
       = map (\<lambda>trimmed. agent_id (new_agent trimmed)) (marker_lines listing)"
    by (rule parse_agents_ids)
  from arg_cong [OF ids, of length]
  show "length (parse_agents listing) = length (marker_lines listing)" by simp
qed

section \<open>Properties of the session list\<close>

lemma map_of_set_prop: "map_of (set_prop k v props) = (map_of props)(k \<mapsto> v)"
  by (induction props) (auto simp: fun_eq_iff)

lemma normalize_session_object:
  "normalize_session (JObj props)
     = Inr (JObj (set_prop ''key'' (session_key_value props)
                   (set_prop ''sessionKey'' (session_key_value props) props)))"
  by (simp add: normalize_session_def session_key_value_def)

lemma map_throwing_objects:
  "map_throwing normalize_session (map JObj pss)
     = Inr (map (\<lambda>props. JObj (set_prop ''key'' (session_key_value props)
                   (set_prop ''sessionKey'' (session_key_value props) props))) pss)"
  by (induction pss) (simp_all add: normalize_session_object)

text \<open>
  C8 as stated fails for a record whose \<^verbatim>\<open>key\<close> is falsy and that has no
  \<^verbatim>\<open>sessionKey\<close>: for the document \<^verbatim>\<open>{"sessions":[{"key":""}]}\<close> the record carries a
  \<^verbatim>\<open>key\<close>, and \<^verbatim>\<open>s.key || s.sessionKey\<close> is \<^verbatim>\<open>undefined\<close>, so normalization leaves both
  fields \<^verbatim>\<open>undefined\<close> and the record loses the key it had.
\<close>

theorem listSessions_falsy_key_undefined:
  "map_of [(''key'', JStr [])] ''key'' = Some (JStr [])
   \<and> listSessions (sessions_list_handler (execOpenClaw None (Some empty_key_text))
                    (Inr (JObj [(''sessions'', JArr [JObj [(''key'', JStr [])]])])))
       = Inr [JObj [(''key'', Undefined), (''sessionKey'', Undefined)]]"
  by (simp add: listSessions_def sessions_list_handler_def execOpenClaw_def success_reply_def
      truthy_string_def empty_key_text_def session_list_of_def js_or_def normalize_session_def)

text \<open>
  C8, as amended. For the document \<^verbatim>\<open>{"sessions":[{"key":"agent:main:1"}]}\<close> printed by
  the CLI, \<^verbatim>\<open>listSessions\<close> returns one record, whose \<^verbatim>\<open>key\<close> and \<^verbatim>\<open>sessionKey\<close> are
  both \<^verbatim>\<open>"agent:main:1"\<close>. For every session object, normalization returns an object
  whose other properties are as they were, and
  \<^item> if the object has a truthy \<^verbatim>\<open>key\<close>, both fields have the value of that \<^verbatim>\<open>key\<close>;
  \<^item> if it has no \<^verbatim>\<open>key\<close> or a falsy one, and has a \<^verbatim>\<open>sessionKey\<close>, both fields have the
    value of that \<^verbatim>\<open>sessionKey\<close>: a record that carries only \<^verbatim>\<open>sessionKey\<close> gets its
    \<^verbatim>\<open>key\<close> from it;
  \<^item> if it has no \<^verbatim>\<open>key\<close> or a falsy one, and no \<^verbatim>\<open>sessionKey\<close>, both fields are
    \<^verbatim>\<open>undefined\<close>.
  \<^verbatim>\<open>listSessions\<close> does this to every object of the list.
\<close>

theorem listSessions_aliases_key:
  "listSessions (sessions_list_handler (execOpenClaw None (Some example_sessions_text))
                  (Inr example_sessions_value))
     = Inr [JObj [(''key'', JStr ''agent:main:1''), (''sessionKey'', JStr ''agent:main:1'')]]
   \<and> (\<exists>props'. normalize_session (JObj props) = Inr (JObj props'))
   \<and> (\<forall>x. x \<noteq> ''key'' \<and> x \<noteq> ''sessionKey'' \<longrightarrow>
         field_of (normalize_session (JObj props)) x = map_of props x)
   \<and> (\<forall>k. map_of props ''key'' = Some k \<and> truthy k \<longrightarrow>
         field_of (normalize_session (JObj props)) ''key'' = Some k
         \<and> field_of (normalize_session (JObj props)) ''sessionKey'' = Some k)
   \<and> (\<forall>sk. (\<forall>k. map_of props ''key'' = Some k \<longrightarrow> \<not> truthy k)
           \<and> map_of props ''sessionKey'' = Some sk \<longrightarrow>
         field_of (normalize_session (JObj props)) ''key'' = Some sk
         \<and> field_of (normalize_session (JObj props)) ''sessionKey'' = Some sk)
   \<and> ((\<forall>k. map_of props ''key'' = Some k \<longrightarrow> \<not> truthy k)
           \<and> map_of props ''sessionKey'' = None \<longrightarrow>
         field_of (normalize_session (JObj props)) ''key'' = Some Undefined
         \<and> field_of (normalize_session (JObj props)) ''sessionKey'' = Some Undefined)
   \<and> listSessions (success_reply\<lparr>sessions := Some (JObj [(''sessions'', JArr (map JObj pss))])\<rparr>)
       = map_throwing normalize_session (map JObj pss)
   \<and> (\<exists>records. map_throwing normalize_session (map JObj pss) = Inr records
         \<and> length records = length pss)"
proof -
  have example: "listSessions (sessions_list_handler
        (execOpenClaw None (Some example_sessions_text)) (Inr example_sessions_value))
     = Inr [JObj [(''key'', JStr ''agent:main:1''), (''sessionKey'', JStr ''agent:main:1'')]]"
    by (simp add: listSessions_def sessions_list_handler_def execOpenClaw_def success_reply_def
        truthy_string_def example_sessions_text_def example_sessions_value_def
        session_list_of_def js_or_def normalize_session_def)
  have fields: "field_of (normalize_session (JObj props)) x
      = (if x = ''key'' \<or> x = ''sessionKey'' then Some (session_key_value props)
         else map_of props x)" for x
    by (simp add: normalize_session_object field_of_def map_of_set_prop)
  have value_key: "session_key_value props = k" if "map_of props ''key'' = Some k" "truthy k" for k
    using that by (simp add: session_key_value_def js_or_def)
  have value_session_key: "session_key_value props = sk"
    if "\<forall>k. map_of props ''key'' = Some k \<longrightarrow> \<not> truthy k"
      "map_of props ''sessionKey'' = Some sk" for sk
    using that by (cases "map_of props ''key''") (simp_all add: session_key_value_def js_or_def)
  have value_none: "session_key_value props = Undefined"
    if "\<forall>k. map_of props ''key'' = Some k \<longrightarrow> \<not> truthy k"
      "map_of props ''sessionKey'' = None"
    using that by (cases "map_of props ''key''") (simp_all add: session_key_value_def js_or_def)
  have list: "listSessions
        (success_reply\<lparr>sessions := Some (JObj [(''sessions'', JArr (map JObj pss))])\<rparr>)
       = map_throwing normalize_session (map JObj pss)"
    by (simp add: listSessions_def success_reply_def session_list_of_def js_or_def)
  have records: "\<exists>records. map_throwing normalize_session (map JObj pss) = Inr records
         \<and> length records = length pss"
    by (simp add: map_throwing_objects)
  have object: "\<exists>props'. normalize_session (JObj props) = Inr (JObj props')"
    by (simp add: normalize_session_object)
  from example object list records show ?thesis
    by (simp add: fields value_key value_session_key value_none)
qed

theorem listSessions_aliases_key_witness:
  "map_of [(''sessionKey'', JStr ''agent:main:2''), (''kind'', JStr ''direct'')] ''key'' = None
   \<and> map_of [(''sessionKey'', JStr ''agent:main:2''), (''kind'', JStr ''direct'')] ''sessionKey''
       = Some (JStr ''agent:main:2'')
   \<and> field_of (normalize_session
         (JObj [(''sessionKey'', JStr ''agent:main:2''), (''kind'', JStr ''direct'')])) ''key''
       = Some (JStr ''agent:main:2'')
   \<and> field_of (normalize_session
         (JObj [(''sessionKey'', JStr ''agent:main:2''), (''kind'', JStr ''direct'')]))
         ''sessionKey''
       = Some (JStr ''agent:main:2'')
   \<and> field_of (normalize_session
         (JObj [(''sessionKey'', JStr ''agent:main:2''), (''kind'', JStr ''direct'')])) ''kind''
       = Some (JStr ''direct'')
   \<and> map_of [(''key'', JStr ''agent:main:1'')] ''key'' = Some (JStr ''agent:main:1'')
   \<and> truthy (JStr ''agent:main:1'')
   \<and> field_of (normalize_session (JObj [(''key'', JStr ''agent:main:1'')])) ''key''
       = Some (JStr ''agent:main:1'')
   \<and> field_of (normalize_session (JObj [(''key'', JStr ''agent:main:1'')])) ''sessionKey''
       = Some (JStr ''agent:main:1'')
   \<and> map_of [(''key'', JStr [])] ''key'' = Some (JStr []) \<and> \<not> truthy (JStr [])
   \<and> map_of [(''key'', JStr [])] ''sessionKey'' = None
   \<and> field_of (normalize_session (JObj [(''key'', JStr [])])) ''key'' = Some Undefined
   \<and> field_of (normalize_session (JObj [(''key'', JStr [])])) ''sessionKey'' = Some Undefined"
  using listSessions_aliases_key
      [of "[(''sessionKey'', JStr ''agent:main:2''), (''kind'', JStr ''direct'')]" "[]"]
    listSessions_aliases_key [of "[(''key'', JStr ''agent:main:1'')]" "[]"]
    listSessions_aliases_key [of "[(''key'', JStr [])]" "[]"]
  by simp

section \<open>Properties of the session hierarchy store\<close>

lemma addSpawn_no_duplicates:
  "no_duplicates m \<Longrightarrow> no_duplicates (mapping_after (addSpawn p c l m))"
  unfolding no_duplicates_def
  by (auto simp: addSpawn_def Let_def split: option.splits if_splits)

text \<open>No state of the store lists a child twice.\<close>

lemma mapping_state_no_duplicates: "mapping_state m \<Longrightarrow> no_duplicates m"
proof (induction rule: mapping_state.induct)
  case empty
  show ?case by (simp add: no_duplicates_def clearMapping_def)
next
  case (spawn m parent child lbl)
  then show ?case by (simp add: addSpawn_no_duplicates)
qed

lemma count_list_distinct:
  "distinct xs \<Longrightarrow> x \<in> set xs \<Longrightarrow> count_list xs x = 1"
  by (induction xs) auto

text \<open>For ids that are not inherited names the call does not throw and writes entries only.\<close>

lemma addSpawn_ordinary:
  assumes "\<not> inherited p" and "\<not> inherited c"
  shows "\<not> thrown (addSpawn p c l m) \<and> \<not> wrote_inherited (addSpawn p c l m)"
  using assms by (auto simp: addSpawn_def Let_def split: option.splits)

lemma addSpawn_children:
  assumes "\<not> inherited p" and "\<not> inherited c"
  shows "getChildren (mapping_after (addSpawn p c l m)) p
           = (if c \<in> set (getChildren m p) then getChildren m p else getChildren m p @ [c])"
  using assms by (auto simp: addSpawn_def getChildren_def Let_def split: option.splits)

lemma addSpawn_frame:
  assumes "\<not> inherited p" and "\<not> inherited c" and "k \<noteq> p" and "k \<noteq> c"
  shows "mapping_after (addSpawn p c l m) k = m k"
  using assms by (auto simp: addSpawn_def Let_def split: option.splits)

lemma addSpawn_child_entry:
  assumes "\<not> inherited p" and "\<not> inherited c"
  shows "c \<in> dom (mapping_after (addSpawn p c l m))
       \<and> entry_parent (mapping_after (addSpawn p c l m)) c = Some p
       \<and> entry_label (mapping_after (addSpawn p c l m)) c
           = (if truthy_string l \<or> (c \<notin> dom m \<and> c \<noteq> p) then l else entry_label m c)
       \<and> (c \<noteq> p \<longrightarrow> getChildren (mapping_after (addSpawn p c l m)) c = getChildren m c)"
  using assms
  by (auto simp: addSpawn_def getChildren_def entry_parent_def entry_label_def Let_def
      truthy_string_def split: option.splits)

lemma addSpawn_parent_entry:
  assumes "\<not> inherited p" and "\<not> inherited c"
  shows "p \<in> dom (mapping_after (addSpawn p c l m))
       \<and> (p \<noteq> c \<longrightarrow> entry_parent (mapping_after (addSpawn p c l m)) p = entry_parent m p
                    \<and> entry_label (mapping_after (addSpawn p c l m)) p = entry_label m p)"
  using assms
  by (auto simp: addSpawn_def entry_parent_def entry_label_def Let_def split: option.splits)

text \<open>After a call the parent lists the child and the child's entry names the parent.\<close>

lemma addSpawn_entries:
  assumes "\<not> inherited p" and "\<not> inherited c"
  shows "\<exists>ep ec. mapping_after (addSpawn p c l m) p = Some ep \<and> c \<in> set (childIds ep)
           \<and> mapping_after (addSpawn p c l m) c = Some ec \<and> parentId ec = Some p
           \<and> (truthy_string l \<longrightarrow> label ec = l)"
  using assms by (auto simp: addSpawn_def Let_def split: option.splits)

text \<open>On such a mapping a call changes nothing.\<close>

lemma addSpawn_settled:
  assumes "M p = Some ep" and "c \<in> set (childIds ep)" and "M c = Some ec"
    and "parentId ec = Some p" and "truthy_string l \<longrightarrow> label ec = l"
  shows "addSpawn p c l M = \<lparr>thrown = False, mapping_after = M, wrote_inherited = False\<rparr>"
proof -
  have "ec\<lparr>parentId := Some p, label := (if truthy_string l then l else label ec)\<rparr> = ec"
    using assms(4,5) by (cases "truthy_string l") simp_all
  with assms(3) have "M(c \<mapsto> ec\<lparr>parentId := Some p,
      label := (if truthy_string l then l else label ec)\<rparr>) = M"
    by (simp add: map_upd_triv)
  with assms(1-3) show ?thesis by (simp add: addSpawn_def Let_def)
qed

lemma addSpawn_idem:
  assumes "\<not> inherited p" and "\<not> inherited c"
  shows "addSpawn p c l (mapping_after (addSpawn p c l m)) = addSpawn p c l m"
proof -
  obtain ep ec where "mapping_after (addSpawn p c l m) p = Some ep" "c \<in> set (childIds ep)"
    "mapping_after (addSpawn p c l m) c = Some ec" "parentId ec = Some p"
    "truthy_string l \<longrightarrow> label ec = l"
    using addSpawn_entries [OF assms] by blast
  then have "addSpawn p c l (mapping_after (addSpawn p c l m))
      = \<lparr>thrown = False, mapping_after = mapping_after (addSpawn p c l m),
         wrote_inherited = False\<rparr>"
    by (rule addSpawn_settled)
  also have "\<dots> = addSpawn p c l m"
    using addSpawn_ordinary [OF assms, of l m] by (cases "addSpawn p c l m") simp
  finally show ?thesis .
qed

lemma addSpawn_child_once:
  assumes "\<not> inherited p" and "\<not> inherited c" and "mapping_state m"
  shows "count_list (getChildren (mapping_after (addSpawn p c l m)) p) c = 1"
proof -
  from assms(3) have "no_duplicates (mapping_after (addSpawn p c l m))"
    by (intro addSpawn_no_duplicates mapping_state_no_duplicates)
  moreover from addSpawn_parent_entry [OF assms(1,2)]
  obtain e where e: "mapping_after (addSpawn p c l m) p = Some e" by blast
  ultimately have "distinct (getChildren (mapping_after (addSpawn p c l m)) p)"
    by (auto simp: no_duplicates_def getChildren_def)
  moreover have "c \<in> set (getChildren (mapping_after (addSpawn p c l m)) p)"
    by (simp add: addSpawn_children [OF assms(1,2)])
  ultimately show ?thesis by (rule count_list_distinct)
qed

text \<open>
  C9 as stated fails for an id that names a member every object inherits: for the
  parent \<^verbatim>\<open>toString\<close> on the empty mapping, \<^verbatim>\<open>updated['toString']\<close> is the inherited
  function, so no entry is made for the parent, its \<^verbatim>\<open>childIds\<close> is \<^verbatim>\<open>undefined\<close>, and the
  call throws. Afterwards the parent is no entry and its list of children is empty.
\<close>

theorem addSpawn_throws_for_inherited_parent:
  "thrown (addSpawn ''toString'' ''c'' (Some ''L'') clearMapping)
   \<and> ''toString'' \<notin> dom (mapping_after (addSpawn ''toString'' ''c'' (Some ''L'') clearMapping))
   \<and> getChildren (mapping_after (addSpawn ''toString'' ''c'' (Some ''L'') clearMapping))
        ''toString'' = []"
  by (simp add: addSpawn_def inherited_def inherited_names_def clearMapping_def
      getChildren_def Let_def)

text \<open>
  C9, as amended. Let the parent and the child be ids that are not names of inherited
  members. Then \<^verbatim>\<open>addSpawn\<close> does not throw and writes to entries only, and a second call
  with the same arguments has the same effect as the first and leaves the mapping the
  first call left. Relative to the mapping before the call: the parent and the child
  are entries afterwards; the parent's list of children is the old list, with the child
  appended at the end exactly when it was not in it; every entry other than the
  parent's and the child's is unchanged; the child's entry names the parent, carries the
  label given (for an entry that existed, and for a child that is its own parent, only
  when the label is truthy) and keeps its own list of children; the parent's entry keeps
  its parent and label. In every state of the store the child is in the parent's list
  exactly once afterwards.
\<close>

theorem addSpawn_idempotent:
  assumes "\<not> inherited p" and "\<not> inherited c"
  shows "\<not> thrown (addSpawn p c l m) \<and> \<not> wrote_inherited (addSpawn p c l m)
       \<and> addSpawn p c l (mapping_after (addSpawn p c l m)) = addSpawn p c l m
       \<and> p \<in> dom (mapping_after (addSpawn p c l m))
       \<and> c \<in> dom (mapping_after (addSpawn p c l m))
       \<and> getChildren (mapping_after (addSpawn p c l m)) p
           = (if c \<in> set (getChildren m p) then getChildren m p else getChildren m p @ [c])
       \<and> (\<forall>k. k \<noteq> p \<and> k \<noteq> c \<longrightarrow> mapping_after (addSpawn p c l m) k = m k)
       \<and> entry_parent (mapping_after (addSpawn p c l m)) c = Some p
       \<and> entry_label (mapping_after (addSpawn p c l m)) c
           = (if truthy_string l \<or> (c \<notin> dom m \<and> c \<noteq> p) then l else entry_label m c)
       \<and> (c \<noteq> p \<longrightarrow> getChildren (mapping_after (addSpawn p c l m)) c = getChildren m c)
       \<and> (p \<noteq> c \<longrightarrow> entry_parent (mapping_after (addSpawn p c l m)) p = entry_parent m p
                    \<and> entry_label (mapping_after (addSpawn p c l m)) p = entry_label m p)
       \<and> (mapping_state m \<longrightarrow>
            count_list (getChildren (mapping_after (addSpawn p c l m)) p) c = 1
            \<and> count_list (getChildren
                 (mapping_after (addSpawn p c l (mapping_after (addSpawn p c l m)))) p) c = 1)"
  using addSpawn_ordinary [OF assms, of l m] addSpawn_idem [OF assms, of l m]
    addSpawn_children [OF assms, of l m] addSpawn_child_entry [OF assms, of l m]
    addSpawn_parent_entry [OF assms, of l m] addSpawn_frame [OF assms, of _ l m]
    addSpawn_child_once [OF assms, of m l]
  by simp

theorem addSpawn_idempotent_witness:
  "\<not> inherited ''p'' \<and> \<not> inherited ''c'' \<and> mapping_state clearMapping
   \<and> \<not> thrown (addSpawn ''p'' ''c'' (Some ''L'') clearMapping)
   \<and> addSpawn ''p'' ''c'' (Some ''L'')
         (mapping_after (addSpawn ''p'' ''c'' (Some ''L'') clearMapping))
       = addSpawn ''p'' ''c'' (Some ''L'') clearMapping
   \<and> getChildren (mapping_after (addSpawn ''p'' ''c'' (Some ''L'') clearMapping)) ''p'' = [''c'']
   \<and> entry_parent (mapping_after (addSpawn ''p'' ''c'' (Some ''L'') clearMapping)) ''c''
       = Some ''p''
   \<and> entry_label (mapping_after (addSpawn ''p'' ''c'' (Some ''L'') clearMapping)) ''c''
       = Some ''L''
   \<and> count_list (getChildren
        (mapping_after (addSpawn ''p'' ''c'' (Some ''L'')
           (mapping_after (addSpawn ''p'' ''c'' (Some ''L'') clearMapping)))) ''p'') ''c'' = 1"
proof -
  have p: "\<not> inherited ''p''" and c: "\<not> inherited ''c''"
    by (simp_all add: inherited_def inherited_names_def)
  have s: "mapping_state clearMapping" by (rule mapping_state.empty)
  have g: "getChildren clearMapping ''p'' = []" and t: "truthy_string (Some ''L'')"
    by (simp_all add: getChildren_def clearMapping_def truthy_string_def)
  from addSpawn_idempotent [OF p c, of "Some ''L''" clearMapping] p c s g t
  show ?thesis by simp
qed

end
